theory Spec2Isabelle
  imports Main "HOL-Library.Word" "HOL-Library.Sublist" "HOL-Library.Signed_Division"
begin

section \<open>The scan tree (scanner/models.go)\<close>

text \<open>
  Go's \<^verbatim>\<open>int64\<close> and \<^verbatim>\<open>uint64\<close> are 64-bit words: \<open>+\<close> wraps around, and
  \<open>sint\<close> reads an \<^verbatim>\<open>int64\<close> as a signed value.
\<close>

type_synonym int64 = "64 word"
type_synonym uint64 = "64 word"

text \<open>
  \<^verbatim>\<open>FileNode\<close>: a file or directory of the tree. The struct is recursive through
  \<^verbatim>\<open>Children []*FileNode\<close>, so it is a datatype whose selectors carry the field
  names. \<^verbatim>\<open>Parent\<close> is a back-reference that no function modelled here reads; the
  tree owns its children, and the back-reference is left out. \<^verbatim>\<open>ModTime\<close> is an
  opaque time stamp.
\<close>

datatype FileNode =
  FileNode (Path: string) (Name: string) (Size: int64) (IsDir: bool) (ModTime: int)
    (Children: "FileNode list") (FileType: string) (IsProtected: bool)

text \<open>
  \<^verbatim>\<open>AddChild\<close> appends the child to \<^verbatim>\<open>n.Children\<close>.
\<close>

fun AddChild :: "FileNode \<Rightarrow> FileNode \<Rightarrow> FileNode" where
  "AddChild (FileNode p nm sz d mt cs ft pr) child = FileNode p nm sz d mt (cs @ [child]) ft pr"

text \<open>
  \<^verbatim>\<open>TotalSize\<close>: a node that is not a directory returns its own \<^verbatim>\<open>Size\<close>; a
  directory runs \<^verbatim>\<open>total := int64(0); for _, child := range n.Children { total +=
  child.TotalSize() }\<close>. The loop is a left fold with the accumulator \<open>total\<close>.
\<close>

fun TotalSize :: "FileNode \<Rightarrow> int64" where
  "TotalSize (FileNode p nm sz d mt cs ft pr) =
     (if \<not> d then sz
      else foldl (\<lambda>total child. total + TotalSize child) 0 cs)"

text \<open>
  \<^verbatim>\<open>FileCount\<close>: the same recursion, counting 1 for every node that is not a directory.
\<close>

fun FileCount :: "FileNode \<Rightarrow> int64" where
  "FileCount (FileNode p nm sz d mt cs ft pr) =
     (if \<not> d then 1
      else foldl (\<lambda>count child. count + FileCount child) 0 cs)"

text \<open>
  The specification's wording of the subtree size, to compare \<open>TotalSize\<close> with: the
  sizes of the files of the subtree, listed by descending through directories, are
  summed. A file is a node with \<open>IsDir\<close> false; a directory's own \<open>Size\<close> is not a
  file size.
\<close>

fun fileSizes :: "FileNode \<Rightarrow> int64 list" where
  "fileSizes (FileNode p nm sz d mt cs ft pr) =
     (if d then concat (map fileSizes cs) else [sz])"

section \<open>Errors, progress snapshots and the scanner's state (scanner/scanner.go)\<close>

text \<open>
  Go errors as values. \<open>OSError\<close> is an error of the operating system or the standard
  library, with its message. The other constructors are the errors the scanner builds
  itself, with the arguments of their \<^verbatim>\<open>fmt.Errorf\<close> call; a wrapped error
  (\<^verbatim>\<open>%w\<close>) is the last argument:
  \<^item> \<open>Timeout path\<close>: \<^verbatim>\<open>"timeout reading directory (>%v): %s", dirReadTimeout, path\<close>;
  \<^item> \<open>CannotReadDirectory path err\<close>: \<^verbatim>\<open>"cannot read directory %s: %w"\<close>;
  \<^item> \<open>CannotStat path err\<close>: \<^verbatim>\<open>"cannot stat %s: %w"\<close>;
  \<^item> \<open>InvalidPath err\<close>, \<open>CannotAccessPath err\<close>, \<open>CannotGetDeviceID err\<close>: the three
    errors of \<^verbatim>\<open>Scan\<close>;
  \<^item> \<open>NoDeviceID path\<close>, \<open>NoStatInfo path\<close>: \<^verbatim>\<open>"cannot get device ID for %s"\<close> and
    \<^verbatim>\<open>"cannot get stat info for %s"\<close>;
  \<^item> \<open>ContextCanceled\<close>, \<open>DeadlineExceeded\<close>: the two values of \<^verbatim>\<open>ctx.Err()\<close>.
\<close>

datatype error =
    OSError string
  | Timeout string
  | CannotReadDirectory string error
  | CannotStat string error
  | InvalidPath error
  | CannotAccessPath error
  | CannotGetDeviceID error
  | NoDeviceID string
  | NoStatInfo string
  | ContextCanceled
  | DeadlineExceeded

record ScanProgress =
  CurrentPath :: string
  FilesScanned :: int64
  BytesScanned :: int64
  TotalBytes :: int64
  Errors :: "error list"
  Complete :: bool
  ICloudFilesSkipped :: int64

text \<open>
  The \<^verbatim>\<open>Scanner\<close> struct. \<open>progress\<close> is the \<^verbatim>\<open>ScanProgress\<close> the pointer field
  refers to; \<open>volumeChecker\<close> is the \<^verbatim>\<open>skipNetwork\<close> flag of the
  \<^verbatim>\<open>safety.VolumeChecker\<close>; \<open>seenInodes\<close> is the map of maps
  \<^verbatim>\<open>map[uint64]map[uint64]bool\<close>. The mutexes guard fields against concurrent access
  and have no state of their own in a sequential run; \<^verbatim>\<open>workerSem\<close> is acquired and
  released around each directory read of \<^verbatim>\<open>scanDirectoryParallel\<close> and is free again
  before anything else happens, so it is left out as well.

  The last five fields are not fields of the struct: they are the part of the run the
  scanner talks to. \<open>polls\<close> counts the polls of \<^verbatim>\<open>ctx.Done()\<close> and \<^verbatim>\<open>ctx.Err()\<close>,
  \<open>clockReads\<close> the calls of \<^verbatim>\<open>time.Now()\<close>, \<open>sendAttempts\<close> the non-blocking sends
  tried on the progress channel; \<open>sent\<close> are the snapshots the channel accepted, in
  order, and \<open>chanClosed\<close> says whether \<^verbatim>\<open>close(progressChan)\<close> has run.
\<close>

record Scanner =
  root :: "FileNode option"
  progress :: ScanProgress
  lastProgressUpdate :: int64
  volumeChecker :: bool
  skippedVolumes :: "string list"
  startDeviceID :: uint64
  oneFilesystem :: bool
  seenInodes :: "uint64 \<rightharpoonup> (uint64 \<rightharpoonup> bool)"
  polls :: nat
  clockReads :: nat
  sendAttempts :: nat
  sent :: "ScanProgress list"
  chanClosed :: bool

text \<open>
  \<^verbatim>\<open>NewScanner\<close>: an empty error list, the volume checker skipping network volumes,
  \<^verbatim>\<open>oneFilesystem\<close> true, an empty \<^verbatim>\<open>seenInodes\<close>; every other field has Go's zero
  value. \<^verbatim>\<open>SetSkipNetwork\<close> and \<^verbatim>\<open>SetOneFilesystem\<close> set the two options.
\<close>

definition NewScanner :: Scanner where
  "NewScanner =
     \<lparr> root = None,
       progress = \<lparr> CurrentPath = [], FilesScanned = 0, BytesScanned = 0, TotalBytes = 0,
                    Errors = [], Complete = False, ICloudFilesSkipped = 0 \<rparr>,
       lastProgressUpdate = 0,
       volumeChecker = True,
       skippedVolumes = [],
       startDeviceID = 0,
       oneFilesystem = True,
       seenInodes = Map.empty,
       polls = 0, clockReads = 0, sendAttempts = 0, sent = [], chanClosed = False \<rparr>"

definition SetSkipNetwork :: "bool \<Rightarrow> Scanner \<Rightarrow> Scanner" where
  "SetSkipNetwork skip s = s\<lparr>volumeChecker := skip\<rparr>"

definition SetOneFilesystem :: "bool \<Rightarrow> Scanner \<Rightarrow> Scanner" where
  "SetOneFilesystem oneFS s = s\<lparr>oneFilesystem := oneFS\<rparr>"

definition GetSkippedVolumes :: "Scanner \<Rightarrow> string list" where
  "GetSkippedVolumes s = skippedVolumes s"

definition GetProgress :: "Scanner \<Rightarrow> ScanProgress" where
  "GetProgress s = progress s"

section \<open>The file system and the run, as the scanner sees them\<close>

text \<open>
  \<^verbatim>\<open>os.FileInfo\<close>: size, directory flag, modification time, and \<^verbatim>\<open>Sys()\<close> as a
  \<^verbatim>\<open>*syscall.Stat_t\<close> (\<open>None\<close> when the type assertion fails), of which the scanner
  reads \<^verbatim>\<open>uint64(stat.Dev)\<close> and \<^verbatim>\<open>stat.Ino\<close>.
\<close>

record FileInfo =
  fiSize :: int64
  fiIsDir :: bool
  fiModTime :: int
  fiSys :: "(uint64 \<times> uint64) option"

text \<open>
  One entry of a directory listing, with what every call the scanner makes on it
  returns:
  \<^item> \<open>entName\<close>: \<^verbatim>\<open>entry.Name()\<close>;
  \<^item> \<open>entInfo\<close>: \<^verbatim>\<open>entry.Info()\<close>;
  \<^item> \<open>entStat\<close>: \<^verbatim>\<open>os.Stat(fullPath)\<close>, called by \<^verbatim>\<open>getDeviceAndInode\<close> and
    \<^verbatim>\<open>getDeviceID\<close>;
  \<^item> \<open>entStatfs\<close>: \<^verbatim>\<open>syscall.Statfs(fullPath)\<close>, as the file system type name with
    its trailing NUL bytes trimmed;
  \<^item> \<open>entReadNanos\<close>, \<open>entReadErr\<close>, \<open>entries\<close>: \<^verbatim>\<open>os.ReadDir(fullPath)\<close> returns
    after \<open>entReadNanos\<close> nanoseconds (\<open>None\<close>: it never returns) with the entries
    \<open>entries\<close> and the error \<open>entReadErr\<close>.
  The file system does not change during a scan: a call repeated on the same entry
  returns the same result. The directory tree is finite.
\<close>

datatype dirent =
  DirEnt (entName: string) (entInfo: "error + FileInfo") (entStat: "error + FileInfo")
    (entStatfs: "error + string") (entReadNanos: "nat option") (entReadErr: "error option")
    (entries: "dirent list")

text \<open>
  The rest of the world of one call of \<^verbatim>\<open>Scan\<close>:
  \<^item> \<open>absPath\<close>: the result of \<^verbatim>\<open>filepath.Abs(rootPath)\<close>;
  \<^item> \<open>rootDir\<close>: the object at that path (\<open>entStat\<close> is \<^verbatim>\<open>os.Stat(absPath)\<close>;
    \<open>entName\<close>, \<open>entInfo\<close> and \<open>entStatfs\<close> are not read);
  \<^item> \<open>userHomeDir\<close>: \<^verbatim>\<open>os.UserHomeDir()\<close>; \<open>toLower\<close>: \<^verbatim>\<open>strings.ToLower\<close>;
  \<^item> \<open>now k\<close>: what the \<open>k\<close>-th call of \<^verbatim>\<open>time.Now().UnixMilli()\<close> returns;
  \<^item> \<open>cancelAt\<close>: the context is cancelled from poll number \<open>k\<close> on when
    \<open>cancelAt = Some k\<close>, and never when it is \<open>None\<close>; a cancelled context stays
    cancelled. \<open>ctxErr\<close> is what \<^verbatim>\<open>ctx.Err()\<close> returns then;
  \<^item> \<open>chanReady k\<close>: whether the progress channel can take a value at the \<open>k\<close>-th
    non-blocking send (its buffer is not full, or a receiver is waiting). It
    depends on the channel's capacity and on its consumer, which are the caller's.
\<close>

record world =
  absPath :: "error + string"
  rootDir :: dirent
  userHomeDir :: "error + string"
  toLower :: "string \<Rightarrow> string"
  now :: "nat \<Rightarrow> int64"
  cancelAt :: "nat option"
  ctxErr :: error
  chanReady :: "nat \<Rightarrow> bool"

section \<open>Paths and formatting (Go standard library)\<close>

text \<open>
  \<^verbatim>\<open>filepath.Base\<close>: the last element of the path, after trailing separators are
  removed; \<^verbatim>\<open>"."\<close> for the empty path and \<^verbatim>\<open>"/"\<close> for a path of separators only.
  \<^verbatim>\<open>filepath.Ext\<close>: the suffix of the last element that starts at its last dot, or
  the empty string.
\<close>

definition filepath_Base :: "string \<Rightarrow> string" where
  "filepath_Base path =
     (if path = [] then ''.''
      else let p = rev (dropWhile (\<lambda>c. c = CHR ''/'') (rev path))
           in if p = [] then ''/'' else rev (takeWhile (\<lambda>c. c \<noteq> CHR ''/'') (rev p)))"

definition filepath_Ext :: "string \<Rightarrow> string" where
  "filepath_Ext path =
     (let last_rev = takeWhile (\<lambda>c. c \<noteq> CHR ''/'') (rev path)
      in if CHR ''.'' \<in> set last_rev
         then CHR ''.'' # rev (takeWhile (\<lambda>c. c \<noteq> CHR ''.'') last_rev)
         else [])"

text \<open>
  \<^verbatim>\<open>filepath.Join(node.Path, entryName)\<close>, for the arguments the scanner passes: a
  cleaned directory path and the name of a directory entry (no separator in it,
  neither \<^verbatim>\<open>"."\<close> nor \<^verbatim>\<open>".."\<close>). The two are joined by one separator; the root
  directory \<^verbatim>\<open>"/"\<close> already ends with it, and an empty element is ignored.
\<close>

definition filepath_Join :: "string \<Rightarrow> string \<Rightarrow> string" where
  "filepath_Join dir name =
     (if dir = [] then name
      else if name = [] then dir
      else if dir = ''/'' then dir @ name
      else dir @ ''/'' @ name)"

text \<open>\<^verbatim>\<open>%d\<close> of \<^verbatim>\<open>fmt.Sprintf\<close> on an unsigned number: its decimal digits.\<close>

definition digitChar :: "nat \<Rightarrow> char" where
  "digitChar d = ''0123456789'' ! d"

fun showNat :: "nat \<Rightarrow> string" where
  "showNat n = (if n < 10 then [digitChar n] else showNat (n div 10) @ [digitChar (n mod 10)])"

section \<open>The volume checker (safety/volumes.go)\<close>

text \<open>
  \<^verbatim>\<open>isCloudBackedPath\<close>: with no home directory nothing is cloud-backed; otherwise
  the two iCloud prefixes are tried, then the table \<^verbatim>\<open>cloudDirs\<close> in order.
\<close>

definition cloudDirs :: "string \<Rightarrow> (string \<times> string) list" where
  "cloudDirs homeDir =
     [(homeDir @ ''/Dropbox'', ''Dropbox''),
      (homeDir @ ''/Google Drive'', ''Google Drive''),
      (homeDir @ ''/OneDrive'', ''OneDrive''),
      (homeDir @ ''/Box'', ''Box''),
      (homeDir @ ''/Library/CloudStorage'', ''Cloud storage'')]"

fun firstCloudDir :: "string \<Rightarrow> (string \<times> string) list \<Rightarrow> bool \<times> string" where
  "firstCloudDir path [] = (False, [])"
| "firstCloudDir path ((p, reason) # rest) =
     (if prefix p path then (True, reason) else firstCloudDir path rest)"

definition isCloudBackedPath :: "world \<Rightarrow> string \<Rightarrow> bool \<times> string" where
  "isCloudBackedPath w path =
     (case userHomeDir w of
        Inl err \<Rightarrow> (False, [])
      | Inr homeDir \<Rightarrow>
          if prefix (homeDir @ ''/Library/Mobile Documents'') path
          then (True, ''iCloud synced directory'')
          else if prefix (homeDir @ ''/Library/Mobile Documents/com~apple~CloudDocs'') path
          then (True, ''iCloud Drive'')
          else firstCloudDir path (cloudDirs homeDir))"

definition networkFSTypes :: "string list" where
  "networkFSTypes =
     [''nfs'', ''smbfs'', ''afpfs'', ''cifs'', ''webdav'', ''ftp'', ''davfs'', ''mtpfs'']"

text \<open>
  \<^verbatim>\<open>isNetworkVolume\<close>. \<open>statfs\<close> is the result of \<^verbatim>\<open>syscall.Statfs(path)\<close>. The loops
  over \<^verbatim>\<open>networkFSTypes\<close> return at the first equal element, which is membership.
\<close>

definition isNetworkVolume :: "world \<Rightarrow> string \<Rightarrow> error + string \<Rightarrow> bool \<times> string" where
  "isNetworkVolume w path statfs =
     (case statfs of
        Inl err \<Rightarrow> (False, [])
      | Inr fsTypeName \<Rightarrow>
          (let fsTypeLower = toLower w fsTypeName in
           if fsTypeLower \<in> set networkFSTypes then (True, fsTypeName)
           else if prefix ''/net/'' path \<or> prefix ''/Network/'' path then (True, fsTypeName)
           else if prefix ''/Volumes/'' path
           then (if path \<noteq> ''/Volumes'' \<and> path \<noteq> ''/Volumes/''
                 then (if fsTypeLower \<in> set networkFSTypes then (True, fsTypeName)
                       else if fsTypeLower = ''autofs'' then (True, fsTypeName)
                       else (False, []))
                 else (False, []))
           else (False, [])))"

text \<open>
  \<^verbatim>\<open>ShouldSkipPath\<close>, with the checker's \<^verbatim>\<open>skipNetwork\<close> flag as first argument. Both
  checks stand under \<^verbatim>\<open>if vc.skipNetwork\<close>.
\<close>

definition ShouldSkipPath :: "bool \<Rightarrow> world \<Rightarrow> string \<Rightarrow> error + string \<Rightarrow> bool \<times> string" where
  "ShouldSkipPath skipNetwork w path statfs =
     (if skipNetwork
      then (case isCloudBackedPath w path of
              (True, reason) \<Rightarrow> (True, reason)
            | (False, _) \<Rightarrow>
                (case isNetworkVolume w path statfs of
                   (True, fsType) \<Rightarrow> (True, ''network volume ('' @ fsType @ '')'')
                 | (False, _) \<Rightarrow> (False, [])))
      else (False, []))"

section \<open>The scanner's helpers\<close>

text \<open>
  \<^verbatim>\<open>getDeviceID\<close> and \<^verbatim>\<open>getDeviceAndInode\<close>; \<open>st\<close> is the result of
  \<^verbatim>\<open>os.Stat(path)\<close>.
\<close>

definition getDeviceID :: "string \<Rightarrow> error + FileInfo \<Rightarrow> error + uint64" where
  "getDeviceID path st =
     (case st of
        Inl err \<Rightarrow> Inl err
      | Inr info \<Rightarrow>
          (case fiSys info of
             None \<Rightarrow> Inl (NoDeviceID path)
           | Some (dev, ino) \<Rightarrow> Inr dev))"

definition getDeviceAndInode :: "string \<Rightarrow> error + FileInfo \<Rightarrow> error + uint64 \<times> uint64" where
  "getDeviceAndInode path st =
     (case st of
        Inl err \<Rightarrow> Inl err
      | Inr info \<Rightarrow>
          (case fiSys info of
             None \<Rightarrow> Inl (NoStatInfo path)
           | Some (dev, ino) \<Rightarrow> Inr (dev, ino)))"

text \<open>
  \<^verbatim>\<open>hasSeenInode\<close> and \<^verbatim>\<open>markInodeSeen\<close>. Reading a key that is missing from a Go
  map gives the zero value, \<^verbatim>\<open>false\<close>.
\<close>

definition hasSeenInode :: "Scanner \<Rightarrow> uint64 \<Rightarrow> uint64 \<Rightarrow> bool" where
  "hasSeenInode s deviceID inode =
     (case seenInodes s deviceID of
        Some inodeMap \<Rightarrow> (case inodeMap inode of Some b \<Rightarrow> b | None \<Rightarrow> False)
      | None \<Rightarrow> False)"

definition markInodeSeen :: "uint64 \<Rightarrow> uint64 \<Rightarrow> Scanner \<Rightarrow> Scanner" where
  "markInodeSeen deviceID inode s =
     (let m = (case seenInodes s deviceID of None \<Rightarrow> Map.empty | Some inodeMap \<Rightarrow> inodeMap)
      in s\<lparr>seenInodes := (seenInodes s)(deviceID \<mapsto> m(inode \<mapsto> True))\<rparr>)"

definition isICloudPlaceholder :: "string \<Rightarrow> bool" where
  "isICloudPlaceholder name = (prefix ''.'' name \<and> suffix ''.icloud'' name)"

definition shouldSkipFilesystemBoundary ::
    "Scanner \<Rightarrow> string \<Rightarrow> error + FileInfo \<Rightarrow> bool \<times> string" where
  "shouldSkipFilesystemBoundary s path st =
     (if \<not> oneFilesystem s then (False, [])
      else (case getDeviceID path st of
              Inl err \<Rightarrow> (False, [])
            | Inr devID \<Rightarrow>
                if devID \<noteq> startDeviceID s
                then (True, ''different filesystem (device '' @ showNat (unat devID) @ '')'')
                else (False, [])))"

definition NewFileNode :: "string \<Rightarrow> int64 \<Rightarrow> bool \<Rightarrow> int \<Rightarrow> FileNode" where
  "NewFileNode path size' isDir modTime =
     (let name = filepath_Base path;
          ext = filepath_Ext path;
          ext = (if ext = [] then (if isDir then ''directory'' else ''no-extension'') else ext)
      in FileNode path name size' isDir modTime [] ext False)"

definition recordError :: "error \<Rightarrow> Scanner \<Rightarrow> Scanner" where
  "recordError err s = s\<lparr>progress := (progress s)\<lparr>Errors := Errors (progress s) @ [err]\<rparr>\<rparr>"

text \<open>
  \<^verbatim>\<open>s.skippedVolumes = append(s.skippedVolumes, ...)\<close>, the statement of every skip.
\<close>

definition appendSkipped :: "string \<Rightarrow> Scanner \<Rightarrow> Scanner" where
  "appendSkipped entry s = s\<lparr>skippedVolumes := skippedVolumes s @ [entry]\<rparr>"

text \<open>
  A poll of the context (\<^verbatim>\<open>select { case <-ctx.Done(): ... default: }\<close>, or
  \<^verbatim>\<open>ctx.Err() != nil\<close>): whether it is cancelled, and the state with the poll counted.
\<close>

definition cancelled :: "world \<Rightarrow> Scanner \<Rightarrow> bool" where
  "cancelled w s = (case cancelAt w of None \<Rightarrow> False | Some k \<Rightarrow> k \<le> polls s)"

definition poll :: "world \<Rightarrow> Scanner \<Rightarrow> bool \<times> Scanner" where
  "poll w s = (cancelled w s, s\<lparr>polls := polls s + 1\<rparr>)"

text \<open>
  The non-blocking send \<^verbatim>\<open>select { case progressChan <- *s.progress: default: }\<close>: the
  channel takes a copy of the progress when it is ready, and the snapshot is dropped
  when it is not. Either way the send returns.
\<close>

definition trySend :: "world \<Rightarrow> Scanner \<Rightarrow> Scanner" where
  "trySend w s =
     (if chanReady w (sendAttempts s)
      then s\<lparr>sent := sent s @ [progress s], sendAttempts := sendAttempts s + 1\<rparr>
      else s\<lparr>sendAttempts := sendAttempts s + 1\<rparr>)"

text \<open>
  \<^verbatim>\<open>updateProgress\<close>. \<open>progressChan\<close> says whether the channel is not \<^verbatim>\<open>nil\<close>. The
  comparison \<^verbatim>\<open>now - s.lastProgressUpdate > 100\<close> is a signed comparison of an
  \<^verbatim>\<open>int64\<close> difference, and \<^verbatim>\<open>%\<close> is Go's remainder, which truncates towards zero.
\<close>

definition updateProgress :: "world \<Rightarrow> string \<Rightarrow> bool \<Rightarrow> Scanner \<Rightarrow> Scanner" where
  "updateProgress w currentPath progressChan s =
     (let s1 = s\<lparr>progress := (progress s)\<lparr>CurrentPath := currentPath,
                                            FilesScanned := FilesScanned (progress s) + 1\<rparr>\<rparr>;
          now' = now w (clockReads s1);
          s2 = s1\<lparr>clockReads := clockReads s1 + 1\<rparr>
      in if progressChan \<and>
            (word_sless 100 (now' - lastProgressUpdate s2)
             \<or> sint (FilesScanned (progress s2)) smod 100 = 0)
         then trySend w (s2\<lparr>lastProgressUpdate := now'\<rparr>)
         else s2)"

text \<open>
  \<^verbatim>\<open>readDirWithTimeout\<close>: \<^verbatim>\<open>os.ReadDir\<close> runs in a goroutine of its own and the caller
  waits for its result or for \<^verbatim>\<open>dirReadTimeout\<close>, whichever comes first. \<open>d\<close> is the
  directory at \<open>path\<close>. A read that takes exactly the timeout is taken as timed out.
\<close>

definition dirReadTimeout :: nat where
  "dirReadTimeout = 5 * 1000000000"

definition readDirWithTimeout :: "string \<Rightarrow> dirent \<Rightarrow> dirent list \<times> error option" where
  "readDirWithTimeout path d =
     (case entReadNanos d of
        None \<Rightarrow> ([], Some (Timeout path))
      | Some t \<Rightarrow>
          if t < dirReadTimeout then (entries d, entReadErr d)
          else ([], Some (Timeout path)))"

text \<open>Whatever the read returns is part of the directory read.\<close>

lemma readDirWithTimeout_size:
  "readDirWithTimeout path d = (ents, err) \<Longrightarrow> size_list size ents < size d"
  by (cases d) (auto simp: readDirWithTimeout_def split: option.splits if_splits)

section \<open>The traversal\<close>

text \<open>
  The body of the loop over the entries of a directory, up to the point where the
  child node is attached. \<^verbatim>\<open>scanDirectoryParallel\<close> and \<^verbatim>\<open>scanDirectorySequential\<close>
  have the same statements there, so the body is written once. \<open>Continue\<close> is a
  \<^verbatim>\<open>continue\<close> of the loop; \<open>Attach childNode\<close> is reaching
  \<^verbatim>\<open>childNode := NewFileNode(...)\<close>.

  \<open>checkBoundary\<close> is the end of the directory branch: the call of
  \<^verbatim>\<open>shouldSkipFilesystemBoundary\<close>, its skip, and the new node otherwise.
\<close>

datatype entry_result = Continue | Attach FileNode

definition checkBoundary :: "string \<Rightarrow> dirent \<Rightarrow> FileInfo \<Rightarrow> Scanner \<Rightarrow> entry_result \<times> Scanner" where
  "checkBoundary fullPath e info s =
     (case shouldSkipFilesystemBoundary s fullPath (entStat e) of
        (True, reason) \<Rightarrow> (Continue, appendSkipped (fullPath @ '' ('' @ reason @ '')'') s)
      | (False, _) \<Rightarrow>
          (Attach (NewFileNode fullPath (fiSize info) (fiIsDir info) (fiModTime info)), s))"

definition processEntry ::
    "world \<Rightarrow> bool \<Rightarrow> string \<Rightarrow> dirent \<Rightarrow> Scanner \<Rightarrow> entry_result \<times> Scanner" where
  "processEntry w progressChan dirPath e s =
     (let entryName = entName e;
          fullPath = filepath_Join dirPath entryName
      in if isICloudPlaceholder entryName
         then (Continue, s\<lparr>progress := (progress s)\<lparr>ICloudFilesSkipped :=
                                          ICloudFilesSkipped (progress s) + 1\<rparr>\<rparr>)
         else
           (let s1 = updateProgress w fullPath progressChan s in
            case ShouldSkipPath (volumeChecker s1) w fullPath (entStatfs e) of
              (True, reason) \<Rightarrow>
                (Continue, appendSkipped (fullPath @ '' ('' @ reason @ '')'') s1)
            | (False, _) \<Rightarrow>
                (case entInfo e of
                   Inl err \<Rightarrow> (Continue, recordError (CannotStat fullPath err) s1)
                 | Inr info \<Rightarrow>
                     if fiIsDir info
                     then (case getDeviceAndInode fullPath (entStat e) of
                             Inr (devID, inode) \<Rightarrow>
                               if hasSeenInode s1 devID inode
                               then (Continue,
                                     appendSkipped (fullPath @ '' (alias/firmlink)'') s1)
                               else checkBoundary fullPath e info (markInodeSeen devID inode s1)
                           | Inl err \<Rightarrow> checkBoundary fullPath e info s1)
                     else (Attach (NewFileNode fullPath (fiSize info) (fiIsDir info)
                                     (fiModTime info)), s1))))"

text \<open>
  \<^verbatim>\<open>scanDirectorySequential\<close>, with \<open>d\<close> the directory at \<^verbatim>\<open>node.Path\<close>, and its loop
  \<open>sequentialLoop\<close> over the entries that are left. The Go code attaches the child
  node and then fills it through the pointer; the model attaches the child as the
  recursive call returns it, which is the same tree.
\<close>

function scanDirectorySequential ::
    "world \<Rightarrow> bool \<Rightarrow> dirent \<Rightarrow> FileNode \<Rightarrow> Scanner \<Rightarrow> FileNode \<times> Scanner"
  and sequentialLoop ::
    "world \<Rightarrow> bool \<Rightarrow> dirent list \<Rightarrow> FileNode \<Rightarrow> Scanner \<Rightarrow> FileNode \<times> Scanner" where
  "scanDirectorySequential w progressChan d node s =
     (case poll w s of
        (True, s1) \<Rightarrow> (node, s1)
      | (False, s1) \<Rightarrow>
          (case readDirWithTimeout (Path node) d of
             (ents, Some err) \<Rightarrow>
               sequentialLoop w progressChan []
                 node (recordError (CannotReadDirectory (Path node) err) s1)
           | (ents, None) \<Rightarrow> sequentialLoop w progressChan ents node s1))"
| "sequentialLoop w progressChan [] node s = (node, s)"
| "sequentialLoop w progressChan (e # rest) node s =
     (case poll w s of
        (True, s1) \<Rightarrow> (node, s1)
      | (False, s1) \<Rightarrow>
          (case processEntry w progressChan (Path node) e s1 of
             (Continue, s2) \<Rightarrow> sequentialLoop w progressChan rest node s2
           | (Attach childNode, s2) \<Rightarrow>
               if IsDir childNode
               then (case scanDirectorySequential w progressChan e childNode s2 of
                       (childNode', s3) \<Rightarrow>
                         sequentialLoop w progressChan rest (AddChild node childNode') s3)
               else sequentialLoop w progressChan rest (AddChild node childNode) s2))"
  by pat_completeness auto

termination
  by (relation "measure (\<lambda>x. case x of
          Inl (w, c, d, node, s) \<Rightarrow> 2 * size d + 1
        | Inr (w, c, ents, node, s) \<Rightarrow> 2 * size_list size ents)")
     (auto dest!: readDirWithTimeout_size [OF sym])

text \<open>
  \<^verbatim>\<open>scanDirectoryParallel\<close> and its loop \<open>parallelLoop\<close>. The semaphore is acquired
  before \<^verbatim>\<open>readDirWithTimeout\<close> and released right after it. The code starts one
  goroutine per child directory (\<^verbatim>\<open>go func(n *FileNode) { ... }(childNode)\<close>) and waits
  for them with \<^verbatim>\<open>wg.Wait()\<close>; the model runs each child to its end at the point where
  it is started, which is one of the schedules of the Go program, so that
  \<^verbatim>\<open>wg.Wait()\<close> has nothing left to wait for. At depth 2 and below the function hands
  the node to \<^verbatim>\<open>scanDirectorySequential\<close>, which polls the context and reads the
  directory again.

  The order in which the passes of different goroutines take their turns on the
  shared state is therefore not modelled. What is stated below of one pass of the
  loop body, or of a function at its first poll, is stated for every state the pass
  may start in, whatever was done to the state before.
\<close>

function scanDirectoryParallel ::
    "world \<Rightarrow> bool \<Rightarrow> dirent \<Rightarrow> FileNode \<Rightarrow> nat \<Rightarrow> Scanner \<Rightarrow> FileNode \<times> Scanner"
  and parallelLoop ::
    "world \<Rightarrow> bool \<Rightarrow> dirent list \<Rightarrow> FileNode \<Rightarrow> nat \<Rightarrow> Scanner \<Rightarrow> FileNode \<times> Scanner" where
  "scanDirectoryParallel w progressChan d node depth s =
     (case poll w s of
        (True, s1) \<Rightarrow> (node, s1)
      | (False, s1) \<Rightarrow>
          (case (case readDirWithTimeout (Path node) d of
                   (ents, Some err) \<Rightarrow>
                     ([], recordError (CannotReadDirectory (Path node) err) s1)
                 | (ents, None) \<Rightarrow> (ents, s1)) of
             (ents, s2) \<Rightarrow>
               if depth < 2 then parallelLoop w progressChan ents node depth s2
               else scanDirectorySequential w progressChan d node s2))"
| "parallelLoop w progressChan [] node depth s = (node, s)"
| "parallelLoop w progressChan (e # rest) node depth s =
     (case poll w s of
        (True, s1) \<Rightarrow> (node, s1)
      | (False, s1) \<Rightarrow>
          (case processEntry w progressChan (Path node) e s1 of
             (Continue, s2) \<Rightarrow> parallelLoop w progressChan rest node depth s2
           | (Attach childNode, s2) \<Rightarrow>
               if IsDir childNode
               then (case scanDirectoryParallel w progressChan e childNode (depth + 1) s2 of
                       (childNode', s3) \<Rightarrow>
                         parallelLoop w progressChan rest (AddChild node childNode') depth s3)
               else parallelLoop w progressChan rest (AddChild node childNode) depth s2))"
  by pat_completeness auto

termination
  by (relation "measure (\<lambda>x. case x of
          Inl (w, c, d, node, depth, s) \<Rightarrow> 2 * size d + 1
        | Inr (w, c, ents, node, depth, s) \<Rightarrow> 2 * size_list size ents)")
     (auto dest!: readDirWithTimeout_size readDirWithTimeout_size [OF sym]
           split: prod.splits option.splits)

text \<open>
  \<^verbatim>\<open>Scan\<close>. The result is the pair the Go function returns, with the scanner's state
  after the call. \<^verbatim>\<open>rootPath\<close> is read by \<^verbatim>\<open>filepath.Abs\<close> only, whose result is
  \<open>absPath w\<close>. \<^verbatim>\<open>s.root\<close> points to the root node from before the traversal; the
  model stores the tree in \<open>root\<close> as the traversal returns it.
\<close>

definition Scan :: "world \<Rightarrow> bool \<Rightarrow> Scanner \<Rightarrow> (FileNode option \<times> error option) \<times> Scanner" where
  "Scan w progressChan s =
     (case absPath w of
        Inl err \<Rightarrow> ((None, Some (InvalidPath err)), s)
      | Inr absPath' \<Rightarrow>
          (case entStat (rootDir w) of
             Inl err \<Rightarrow> ((None, Some (CannotAccessPath err)), s)
           | Inr info \<Rightarrow>
               (case (if oneFilesystem s
                      then (case getDeviceID absPath' (entStat (rootDir w)) of
                              Inl err \<Rightarrow> Inl (CannotGetDeviceID err)
                            | Inr devID \<Rightarrow> Inr (s\<lparr>startDeviceID := devID\<rparr>))
                      else Inr s) of
                  Inl err \<Rightarrow> ((None, Some err), s)
                | Inr s1 \<Rightarrow>
                    (let rootNode = NewFileNode absPath' (fiSize info) (fiIsDir info)
                                      (fiModTime info);
                         (rootNode', s2) =
                            (if fiIsDir info
                             then scanDirectoryParallel w progressChan (rootDir w) rootNode 0 s1
                             else (rootNode, s1));
                         s3 = s2\<lparr>root := Some rootNode'\<rparr>;
                         (isCancelled, s4) = poll w s3
                     in if isCancelled
                        then ((Some rootNode', Some (ctxErr w)),
                              s4\<lparr>progress := (progress s4)\<lparr>Complete := False\<rparr>\<rparr>)
                        else
                          (let s5 = s4\<lparr>progress := (progress s4)\<lparr>Complete := True\<rparr>\<rparr>
                           in if progressChan
                              then ((Some rootNode', None), (trySend w s5)\<lparr>chanClosed := True\<rparr>)
                              else ((Some rootNode', None), s5))))))"

text \<open>
  The first equation of each traversal function rewrites any of its calls, so it is
  taken out of the simplifier's rules and unfolded where a proof needs it.
\<close>

declare scanDirectorySequential.simps [simp del]
declare scanDirectoryParallel.simps [simp del]

section \<open>Notions the properties are stated with\<close>

text \<open>
  The statements of \<^verbatim>\<open>Scan\<close> that follow the traversal, as a function of the tree and
  the state the traversal leaves: the poll \<^verbatim>\<open>ctx.Err() != nil\<close>, the \<^verbatim>\<open>Complete\<close> flag,
  and, for a scan that was not cancelled and has a channel, the final snapshot and
  \<^verbatim>\<open>close(progressChan)\<close>.
\<close>

definition finishScan :: "world \<Rightarrow> bool \<Rightarrow> FileNode \<Rightarrow> Scanner \<Rightarrow> Scanner" where
  "finishScan w c tree s2 =
     (if cancelled w s2
      then s2\<lparr>root := Some tree, polls := polls s2 + 1,
              progress := (progress s2)\<lparr>Complete := False\<rparr>\<rparr>
      else if c
      then (trySend w (s2\<lparr>root := Some tree, polls := polls s2 + 1,
                           progress := (progress s2)\<lparr>Complete := True\<rparr>\<rparr>))
              \<lparr>chanClosed := True\<rparr>
      else s2\<lparr>root := Some tree, polls := polls s2 + 1,
              progress := (progress s2)\<lparr>Complete := True\<rparr>\<rparr>)"

text \<open>
  The fatal root case of \<^verbatim>\<open>Scan\<close>: the root path does not resolve, \<^verbatim>\<open>os.Stat\<close> fails
  on it, or, with \<^verbatim>\<open>oneFilesystem\<close> set, its device identifier cannot be read.
\<close>

definition rootFails :: "world \<Rightarrow> Scanner \<Rightarrow> bool" where
  "rootFails w s =
     (case absPath w of
        Inl err \<Rightarrow> True
      | Inr ap \<Rightarrow>
          (case entStat (rootDir w) of
             Inl err \<Rightarrow> True
           | Inr info \<Rightarrow> oneFilesystem s \<and> isl (getDeviceID ap (entStat (rootDir w)))))"

text \<open>
  The errors of a failed \<^verbatim>\<open>entry.Info()\<close>, and the errors of a failed directory read.
\<close>

definition isCannotStat :: "error \<Rightarrow> bool" where
  "isCannotStat e = (case e of CannotStat p err \<Rightarrow> True | _ \<Rightarrow> False)"

definition isCannotReadDirectory :: "error \<Rightarrow> bool" where
  "isCannotReadDirectory e = (case e of CannotReadDirectory p err \<Rightarrow> True | _ \<Rightarrow> False)"

text \<open>
  The nodes below a node, and the entries a tree and a state account for: every node
  below the root, every skip record and every recorded \<^verbatim>\<open>entry.Info()\<close> failure stands
  for one entry of a listing.
\<close>

fun countDescendants :: "FileNode \<Rightarrow> nat" where
  "countDescendants (FileNode p nm sz d mt cs ft pr) =
     sum_list (map (\<lambda>child. 1 + countDescendants child) cs)"

definition entriesAccounted :: "FileNode \<Rightarrow> Scanner \<Rightarrow> nat" where
  "entriesAccounted node s =
     countDescendants node + length (skippedVolumes s)
       + length (filter isCannotStat (Errors (progress s)))"

text \<open>
  \<open>counted a b\<close>: from the node and state \<open>a\<close> to the node and state \<open>b\<close>, the entries
  accounted for and \<^verbatim>\<open>FilesScanned\<close> have grown by the same number.
\<close>

definition counted :: "FileNode \<times> Scanner \<Rightarrow> FileNode \<times> Scanner \<Rightarrow> bool" where
  "counted a b \<longleftrightarrow>
     (\<exists>k. entriesAccounted (fst b) (snd b) = entriesAccounted (fst a) (snd a) + k
          \<and> FilesScanned (progress (snd b)) = FilesScanned (progress (snd a)) + of_nat k)"

text \<open>
  \<open>bytesKept s s'\<close>: from \<open>s\<close> to \<open>s'\<close> the counter \<^verbatim>\<open>BytesScanned\<close> has not changed, and
  every snapshot sent in between carries its value.
\<close>

definition bytesKept :: "Scanner \<Rightarrow> Scanner \<Rightarrow> bool" where
  "bytesKept s s' \<longleftrightarrow>
     BytesScanned (progress s') = BytesScanned (progress s)
     \<and> (\<forall>q \<in> set (sent s'). q \<in> set (sent s) \<or> BytesScanned q = BytesScanned (progress s))"

text \<open>
  \<^verbatim>\<open>Scan\<close> up to the end of the traversal: the error of the fatal root case, or the
  tree and the state that the traversal leaves. \<^verbatim>\<open>Scan\<close> is this, followed by
  \<open>finishScan\<close>.
\<close>

definition startScan :: "world \<Rightarrow> bool \<Rightarrow> Scanner \<Rightarrow> error + FileNode \<times> Scanner" where
  "startScan w progressChan s =
     (case absPath w of
        Inl err \<Rightarrow> Inl (InvalidPath err)
      | Inr absPath' \<Rightarrow>
          (case entStat (rootDir w) of
             Inl err \<Rightarrow> Inl (CannotAccessPath err)
           | Inr info \<Rightarrow>
               (case (if oneFilesystem s
                      then (case getDeviceID absPath' (entStat (rootDir w)) of
                              Inl err \<Rightarrow> Inl (CannotGetDeviceID err)
                            | Inr devID \<Rightarrow> Inr (s\<lparr>startDeviceID := devID\<rparr>))
                      else Inr s) of
                  Inl err \<Rightarrow> Inl err
                | Inr s1 \<Rightarrow>
                    (let rootNode = NewFileNode absPath' (fiSize info) (fiIsDir info)
                                      (fiModTime info)
                     in Inr (if fiIsDir info
                             then scanDirectoryParallel w progressChan (rootDir w) rootNode 0 s1
                             else (rootNode, s1))))))"



text \<open>
  The errors of one directory or entry, and the errors of the fatal root case.
  \<open>errorsAppended s s'\<close>: the error list of \<open>s\<close> comes first in the list of \<open>s'\<close>, in
  the same order, and every error after it is a directory read error or an \<^verbatim>\<open>Info()\<close>
  error.
\<close>

definition isPerEntryError :: "error \<Rightarrow> bool" where
  "isPerEntryError x = (isCannotReadDirectory x \<or> isCannotStat x)"

definition isRootError :: "error \<Rightarrow> bool" where
  "isRootError x =
     (case x of InvalidPath e \<Rightarrow> True | CannotAccessPath e \<Rightarrow> True
      | CannotGetDeviceID e \<Rightarrow> True | _ \<Rightarrow> False)"

definition errorsAppended :: "Scanner \<Rightarrow> Scanner \<Rightarrow> bool" where
  "errorsAppended s s' =
     (prefix (Errors (progress s)) (Errors (progress s'))
      \<and> list_all isPerEntryError (drop (length (Errors (progress s))) (Errors (progress s'))))"

definition optionsKept :: "Scanner \<Rightarrow> Scanner \<Rightarrow> bool" where
  "optionsKept s s' \<longleftrightarrow>
     startDeviceID s' = startDeviceID s \<and> oneFilesystem s' = oneFilesystem s
     \<and> volumeChecker s' = volumeChecker s"

definition seenKept :: "Scanner \<Rightarrow> Scanner \<Rightarrow> bool" where
  "seenKept s s' \<longleftrightarrow> (\<forall>dev ino. hasSeenInode s dev ino \<longrightarrow> hasSeenInode s' dev ino)"

section \<open>Concrete file systems\<close>

text \<open>
  The inputs the theorems are tried on. \<open>exFile\<close> is a regular file on device 1,
  \<open>exDir\<close> a readable directory, \<open>exUnreadable\<close> a directory whose listing fails,
  \<open>exStuck\<close> a directory whose listing never returns, \<open>exNfs\<close> an NFS mount, \<open>exGone\<close>
  an entry whose \<^verbatim>\<open>Info()\<close> and \<^verbatim>\<open>os.Stat\<close> fail. \<open>exWorld\<close>
  is a run on the root \<^verbatim>\<open>/root\<close> with a clock that advances by 10 ms per reading and
  a channel that always has room.
\<close>

definition exInfo :: "int64 \<Rightarrow> bool \<Rightarrow> uint64 \<Rightarrow> uint64 \<Rightarrow> FileInfo" where
  "exInfo sz isDir dev ino = \<lparr>fiSize = sz, fiIsDir = isDir, fiModTime = 0, fiSys = Some (dev, ino)\<rparr>"

definition exFile :: "string \<Rightarrow> int64 \<Rightarrow> uint64 \<Rightarrow> dirent" where
  "exFile name sz ino =
     DirEnt name (Inr (exInfo sz False 1 ino)) (Inr (exInfo sz False 1 ino)) (Inr ''apfs'')
       None None []"

definition exDir :: "string \<Rightarrow> uint64 \<Rightarrow> uint64 \<Rightarrow> dirent list \<Rightarrow> dirent" where
  "exDir name dev ino ents =
     DirEnt name (Inr (exInfo 64 True dev ino)) (Inr (exInfo 64 True dev ino)) (Inr ''apfs'')
       (Some 1000000) None ents"

definition exUnreadable :: "string \<Rightarrow> uint64 \<Rightarrow> dirent" where
  "exUnreadable name ino =
     DirEnt name (Inr (exInfo 64 True 1 ino)) (Inr (exInfo 64 True 1 ino)) (Inr ''apfs'')
       (Some 1000000) (Some (OSError ''permission denied'')) []"

definition exStuck :: "string \<Rightarrow> uint64 \<Rightarrow> dirent" where
  "exStuck name ino =
     DirEnt name (Inr (exInfo 64 True 1 ino)) (Inr (exInfo 64 True 1 ino)) (Inr ''apfs'')
       None None []"

definition exNfs :: "string \<Rightarrow> uint64 \<Rightarrow> uint64 \<Rightarrow> dirent list \<Rightarrow> dirent" where
  "exNfs name dev ino ents =
     DirEnt name (Inr (exInfo 64 True dev ino)) (Inr (exInfo 64 True dev ino)) (Inr ''nfs'')
       (Some 1000000) None ents"

definition exGone :: "string \<Rightarrow> dirent" where
  "exGone name =
     DirEnt name (Inl (OSError ''no such file or directory''))
       (Inl (OSError ''no such file or directory'')) (Inr ''apfs'') None None []"

definition exWorld :: "dirent \<Rightarrow> nat option \<Rightarrow> world" where
  "exWorld r c =
     \<lparr> absPath = Inr ''/root'', rootDir = r, userHomeDir = Inr ''/Users/u'', toLower = id,
       now = (\<lambda>k. 1000 + 10 * of_nat k), cancelAt = c, ctxErr = ContextCanceled,
       chanReady = (\<lambda>k. True) \<rparr>"

text \<open>
  Six runs: \<open>exCancelled\<close> is cancelled from its fourth poll on; \<open>exNetwork\<close> has an
  NFS mount on device 7 below the root; \<open>exMounts\<close> has the same directory of device 2
  at two paths; \<open>exDeep\<close> has a directory whose listing never returns at depth 2 and
  another at depth 1; \<open>exErrors\<close> has an entry whose \<^verbatim>\<open>Info()\<close> fails and a directory that
  cannot be read; \<open>exSelf\<close> has below the root a directory with the device and inode of
  the root itself.
\<close>

definition exCancelled :: world where
  "exCancelled =
     exWorld (exDir ''root'' 1 2 [exFile ''a.txt'' 10 3, exUnreadable ''locked'' 4]) (Some 3)"

definition exNetwork :: world where
  "exNetwork =
     exWorld (exDir ''root'' 1 2 [exNfs ''nas'' 7 9 [exFile ''x'' 1 10], exFile ''a.txt'' 10 3])
       None"

definition exMounts :: world where
  "exMounts =
     exWorld (exDir ''root'' 1 2
        [exDir ''m1'' 2 7 [exFile ''f'' 5 8], exDir ''m2'' 2 7 [exFile ''f'' 5 8]]) None"

definition exErrors :: world where
  "exErrors =
     exWorld (exDir ''root'' 1 2
        [exGone ''tmp'', exUnreadable ''locked'' 4, exFile ''a.txt'' 10 3]) None"

definition exSelf :: world where
  "exSelf =
     exWorld (exDir ''root'' 1 2
        [exFile ''a.txt'' 10 3, exDir ''self'' 1 2 [exFile ''a.txt'' 10 3]]) None"

definition exDeep :: world where
  "exDeep =
     exWorld (exDir ''root'' 1 2
        [exDir ''a'' 1 3 [exStuck ''b'' 4, exFile ''f.txt'' 7 5], exStuck ''c'' 6,
         exFile ''g.txt'' 3 7]) None"

lemmas ex_defs = exInfo_def exFile_def exDir_def exUnreadable_def exStuck_def exNfs_def
  exGone_def exWorld_def exCancelled_def exNetwork_def exMounts_def exDeep_def exErrors_def
  exSelf_def

lemmas model_defs = Scan_def NewScanner_def SetSkipNetwork_def SetOneFilesystem_def
  scanDirectoryParallel.simps scanDirectorySequential.simps
  processEntry_def checkBoundary_def poll_def cancelled_def readDirWithTimeout_def
  dirReadTimeout_def updateProgress_def trySend_def recordError_def appendSkipped_def
  NewFileNode_def filepath_Base_def filepath_Ext_def filepath_Join_def isICloudPlaceholder_def
  ShouldSkipPath_def isCloudBackedPath_def isNetworkVolume_def cloudDirs_def networkFSTypes_def
  getDeviceID_def getDeviceAndInode_def hasSeenInode_def markInodeSeen_def
  shouldSkipFilesystemBoundary_def digitChar_def word_sless_alt signed_modulo_int_def
  suffix_to_prefix Let_def

section \<open>Size aggregation\<close>

lemma foldl_plus_sum_list:
  "foldl (\<lambda>total child. total + f child) (a :: int64) cs = a + sum_list (map f cs)"
  by (induction cs arbitrary: a) (simp_all add: add.assoc)

lemma TotalSize_dir:
  "IsDir n \<Longrightarrow> TotalSize n = sum_list (map TotalSize (Children n))"
  by (cases n) (simp add: foldl_plus_sum_list)

lemma TotalSize_file: "\<not> IsDir n \<Longrightarrow> TotalSize n = Size n"
  by (cases n) simp

lemma sum_list_concat_map:
  "sum_list (concat (map g cs)) = sum_list (map (\<lambda>c. sum_list (g c)) cs)"
  for g :: "'a \<Rightarrow> int64 list"
  by (induction cs) simp_all

lemma TotalSize_fileSizes: "TotalSize n = sum_list (fileSizes n)"
proof (induction n rule: TotalSize.induct)
  case (1 p nm sz d mt cs ft pr)
  show ?case
  proof (cases d)
    case False
    then show ?thesis by simp
  next
    case True
    have eq: "map TotalSize cs = map (\<lambda>c. sum_list (fileSizes c)) cs"
      using 1 True by simp
    show ?thesis
      using True by (simp add: foldl_plus_sum_list sum_list_concat_map eq)
  qed
qed

text \<open>
  C6. A directory's \<open>TotalSize\<close> is the sum of the \<open>TotalSize\<close> of its direct children
  (0 for no children; its own \<open>Size\<close> is ignored), a non-directory's \<open>TotalSize\<close> is
  its own \<open>Size\<close>, and so the \<open>TotalSize\<close> of any node is the sum of the file sizes of
  its subtree, for every tree. The sums are \<^verbatim>\<open>int64\<close> sums, as in the code.
\<close>

theorem C6_TotalSize_sum:
  "(IsDir n \<longrightarrow> TotalSize n = sum_list (map TotalSize (Children n)))
   \<and> (IsDir n \<and> Children n = [] \<longrightarrow> TotalSize n = 0)
   \<and> (\<not> IsDir n \<longrightarrow> TotalSize n = Size n)
   \<and> TotalSize n = sum_list (fileSizes n)"
  using TotalSize_dir [of n] TotalSize_file [of n] TotalSize_fileSizes [of n] by auto

theorem C6_TotalSize_sum_witness:
  "IsDir (FileNode ''/root'' ''root'' 4096 True 0
       [FileNode ''/root/a.txt'' ''a.txt'' 10 False 0 [] ''.txt'' False,
        FileNode ''/root/sub'' ''sub'' 64 True 0
          [FileNode ''/root/sub/b.txt'' ''b.txt'' 20 False 0 [] ''.txt'' False]
          ''directory'' False,
        FileNode ''/root/empty'' ''empty'' 64 True 0 [] ''directory'' False]
       ''directory'' False)
   \<and> TotalSize (FileNode ''/root'' ''root'' 4096 True 0
       [FileNode ''/root/a.txt'' ''a.txt'' 10 False 0 [] ''.txt'' False,
        FileNode ''/root/sub'' ''sub'' 64 True 0
          [FileNode ''/root/sub/b.txt'' ''b.txt'' 20 False 0 [] ''.txt'' False]
          ''directory'' False,
        FileNode ''/root/empty'' ''empty'' 64 True 0 [] ''directory'' False]
       ''directory'' False) = 30"
  using C6_TotalSize_sum [of "FileNode ''/root'' ''root'' 4096 True 0
       [FileNode ''/root/a.txt'' ''a.txt'' 10 False 0 [] ''.txt'' False,
        FileNode ''/root/sub'' ''sub'' 64 True 0
          [FileNode ''/root/sub/b.txt'' ''b.txt'' 20 False 0 [] ''.txt'' False]
          ''directory'' False,
        FileNode ''/root/empty'' ''empty'' 64 True 0 [] ''directory'' False]
       ''directory'' False"]
  by simp

section \<open>Induction over the traversal\<close>

text \<open>
  A relation between a node with a state and a later node with a later state holds
  from the start to the end of every traversal, when it is reflexive and transitive
  and every step of the traversal (a poll, a recorded read error, a pass through the
  loop body that continues, a child attached) keeps it.
\<close>

lemma sequential_inv:
  assumes trefl: "\<And>n s. T (n, s) (n, s)"
    and ttrans: "\<And>a b c. T a b \<Longrightarrow> T b c \<Longrightarrow> T a c"
    and tpoll: "\<And>n s. T (n, s) (n, snd (poll w s))"
    and terr: "\<And>n p e s. T (n, s) (n, recordError (CannotReadDirectory p e) s)"
    and tcont: "\<And>n e s s2. processEntry w c (Path n) e s = (Continue, s2) \<Longrightarrow> T (n, s) (n, s2)"
    and tattach: "\<And>n e s ch s2 ch' s3.
        processEntry w c (Path n) e s = (Attach ch, s2) \<Longrightarrow> T (ch, s2) (ch', s3) \<Longrightarrow>
        T (n, s) (AddChild n ch', s3)"
  shows "T (node, s) (scanDirectorySequential w c d node s)"
    and "T (node, s) (sequentialLoop w c ents node s)"
  using assms
proof (induction w c d node s and w c ents node s
       rule: scanDirectorySequential_sequentialLoop.induct)
  case (1 w c d node s)
  note tr = "1.prems"(2)
  obtain b s1 where p: "poll w s = (b, s1)" by (cases "poll w s")
  have r1: "T (node, s) (node, s1)" using "1.prems"(3) [of node s] p by simp
  obtain es err where rd: "readDirWithTimeout (Path node) d = (es, err)"
    by (cases "readDirWithTimeout (Path node) d")
  show ?case
  proof (cases b)
    case True
    then show ?thesis using p r1 by (simp add: scanDirectorySequential.simps [of w c d node s])
  next
    case False
    then have bF: "b = False" by simp
    show ?thesis
    proof (cases err)
      case None
      have "T (node, s1) (sequentialLoop w c es node s1)"
        by (rule "1.IH"(1) [OF p [symmetric] bF rd [symmetric] None "1.prems"])
      then have "T (node, s) (sequentialLoop w c es node s1)" by (rule tr [OF r1])
      then show ?thesis
        using p False None rd by (simp add: scanDirectorySequential.simps [of w c d node s])
    next
      case (Some e)
      have "T (node, s1) (node, recordError (CannotReadDirectory (Path node) e) s1)"
        by (rule "1.prems"(4))
      then have "T (node, s) (node, recordError (CannotReadDirectory (Path node) e) s1)"
        by (rule tr [OF r1])
      then show ?thesis
        using p False Some rd by (simp add: scanDirectorySequential.simps [of w c d node s])
    qed
  qed
next
  case (2 w c node s)
  then show ?case by simp
next
  case (3 w c e rest node s)
  note tr = "3.prems"(2)
  obtain b s1 where p: "poll w s = (b, s1)" by (cases "poll w s")
  have r1: "T (node, s) (node, s1)" using "3.prems"(3) [of node s] p by simp
  obtain res s2 where pe: "processEntry w c (Path node) e s1 = (res, s2)"
    by (cases "processEntry w c (Path node) e s1")
  show ?case
  proof (cases b)
    case True
    then show ?thesis using p r1 by simp
  next
    case False
    then have bF: "b = False" by simp
    show ?thesis
    proof (cases res)
      case Continue
      have "T (node, s1) (node, s2)" using "3.prems"(5) pe Continue by simp
      then have r12: "T (node, s) (node, s2)" by (rule tr [OF r1])
      have "T (node, s2) (sequentialLoop w c rest node s2)"
        by (rule "3.IH"(1) [OF p [symmetric] bF pe [symmetric] Continue "3.prems"])
      then have "T (node, s) (sequentialLoop w c rest node s2)" by (rule tr [OF r12])
      then show ?thesis using p pe False Continue by simp
    next
      case (Attach childNode)
      show ?thesis
      proof (cases "IsDir childNode")
        case True
        obtain c' s3 where sc: "scanDirectorySequential w c e childNode s2 = (c', s3)"
          by (cases "scanDirectorySequential w c e childNode s2")
        have "T (childNode, s2) (scanDirectorySequential w c e childNode s2)"
          by (rule "3.IH"(2) [OF p [symmetric] bF pe [symmetric] Attach True "3.prems"])
        then have "T (childNode, s2) (c', s3)" using sc by simp
        then have "T (node, s1) (AddChild node c', s3)"
          using "3.prems"(6) pe Attach by simp
        then have r3: "T (node, s) (AddChild node c', s3)" by (rule tr [OF r1])
        have "T (AddChild node c', s3) (sequentialLoop w c rest (AddChild node c') s3)"
          by (rule "3.IH"(3) [OF p [symmetric] bF pe [symmetric] Attach True sc [symmetric]
                "3.prems"])
        then have "T (node, s) (sequentialLoop w c rest (AddChild node c') s3)"
          by (rule tr [OF r3])
        then show ?thesis using p pe False Attach True sc by simp
      next
        case F: False
        have "T (childNode, s2) (childNode, s2)" by (rule "3.prems"(1))
        then have "T (node, s1) (AddChild node childNode, s2)"
          using "3.prems"(6) pe Attach by simp
        then have r3: "T (node, s) (AddChild node childNode, s2)" by (rule tr [OF r1])
        have "T (AddChild node childNode, s2)
                (sequentialLoop w c rest (AddChild node childNode) s2)"
          by (rule "3.IH"(4) [OF p [symmetric] bF pe [symmetric] Attach F "3.prems"])
        then have "T (node, s) (sequentialLoop w c rest (AddChild node childNode) s2)"
          by (rule tr [OF r3])
        then show ?thesis using p pe False Attach F by simp
      qed
    qed
  qed
qed


lemma parallel_inv:
  assumes trefl: "\<And>n s. T (n, s) (n, s)"
    and ttrans: "\<And>a b c. T a b \<Longrightarrow> T b c \<Longrightarrow> T a c"
    and tpoll: "\<And>n s. T (n, s) (n, snd (poll w s))"
    and terr: "\<And>n p e s. T (n, s) (n, recordError (CannotReadDirectory p e) s)"
    and tcont: "\<And>n e s s2. processEntry w c (Path n) e s = (Continue, s2) \<Longrightarrow> T (n, s) (n, s2)"
    and tattach: "\<And>n e s ch s2 ch' s3.
        processEntry w c (Path n) e s = (Attach ch, s2) \<Longrightarrow> T (ch, s2) (ch', s3) \<Longrightarrow>
        T (n, s) (AddChild n ch', s3)"
  shows "T (node, s) (scanDirectoryParallel w c d node depth s)"
    and "T (node, s) (parallelLoop w c ents node depth s)"
  using assms
proof (induction w c d node depth s and w c ents node depth s
       rule: scanDirectoryParallel_parallelLoop.induct)
  case (1 w c d node depth s)
  note tr = "1.prems"(2)
  obtain b s1 where p: "poll w s = (b, s1)" by (cases "poll w s")
  have r1: "T (node, s) (node, s1)" using "1.prems"(3) [of node s] p by simp
  obtain es s2 where
    sel: "(case readDirWithTimeout (Path node) d of
             (ents, Some err) \<Rightarrow> ([], recordError (CannotReadDirectory (Path node) err) s1)
           | (ents, None) \<Rightarrow> (ents, s1)) = (es, s2)"
    by (cases "case readDirWithTimeout (Path node) d of
             (ents, Some err) \<Rightarrow> ([], recordError (CannotReadDirectory (Path node) err) s1)
           | (ents, None) \<Rightarrow> (ents, s1)")
  have "T (node, s1) (node, s2)"
    using sel "1.prems"(1) [of node s1] "1.prems"(4) [of node s1 "Path node"]
    by (auto split: prod.splits option.splits)
  then have r2: "T (node, s) (node, s2)" by (rule tr [OF r1])
  show ?case
  proof (cases b)
    case True
    then show ?thesis using p r1 by (simp add: scanDirectoryParallel.simps [of w c d node depth s])
  next
    case False
    then have bF: "b = False" by simp
    show ?thesis
    proof (cases "depth < 2")
      case True
      have "T (node, s2) (parallelLoop w c es node depth s2)"
        by (rule "1.IH" [OF p [symmetric] bF sel [symmetric] True "1.prems"])
      then have "T (node, s) (parallelLoop w c es node depth s2)" by (rule tr [OF r2])
      then show ?thesis
        using p False True sel
        by (simp add: scanDirectoryParallel.simps [of w c d node depth s])
    next
      case F: False
      have "T (node, s2) (scanDirectorySequential w c d node s2)"
        by (rule sequential_inv(1) [OF "1.prems"])
      then have "T (node, s) (scanDirectorySequential w c d node s2)" by (rule tr [OF r2])
      then show ?thesis
        using p False F sel
        by (simp add: scanDirectoryParallel.simps [of w c d node depth s])
    qed
  qed
next
  case (2 w c node depth s)
  then show ?case by simp
next
  case (3 w c e rest node depth s)
  note tr = "3.prems"(2)
  obtain b s1 where p: "poll w s = (b, s1)" by (cases "poll w s")
  have r1: "T (node, s) (node, s1)" using "3.prems"(3) [of node s] p by simp
  obtain res s2 where pe: "processEntry w c (Path node) e s1 = (res, s2)"
    by (cases "processEntry w c (Path node) e s1")
  show ?case
  proof (cases b)
    case True
    then show ?thesis using p r1 by simp
  next
    case False
    then have bF: "b = False" by simp
    show ?thesis
    proof (cases res)
      case Continue
      have "T (node, s1) (node, s2)" using "3.prems"(5) pe Continue by simp
      then have r12: "T (node, s) (node, s2)" by (rule tr [OF r1])
      have "T (node, s2) (parallelLoop w c rest node depth s2)"
        by (rule "3.IH"(1) [OF p [symmetric] bF pe [symmetric] Continue "3.prems"])
      then have "T (node, s) (parallelLoop w c rest node depth s2)" by (rule tr [OF r12])
      then show ?thesis using p pe False Continue by simp
    next
      case (Attach childNode)
      show ?thesis
      proof (cases "IsDir childNode")
        case True
        obtain c' s3 where
          sc: "scanDirectoryParallel w c e childNode (depth + 1) s2 = (c', s3)"
          by (cases "scanDirectoryParallel w c e childNode (depth + 1) s2")
        have "T (childNode, s2) (scanDirectoryParallel w c e childNode (depth + 1) s2)"
          by (rule "3.IH"(2) [OF p [symmetric] bF pe [symmetric] Attach True "3.prems"])
        then have "T (childNode, s2) (c', s3)" using sc by simp
        then have "T (node, s1) (AddChild node c', s3)"
          using "3.prems"(6) pe Attach by simp
        then have r3: "T (node, s) (AddChild node c', s3)" by (rule tr [OF r1])
        have "T (AddChild node c', s3) (parallelLoop w c rest (AddChild node c') depth s3)"
          by (rule "3.IH"(3) [OF p [symmetric] bF pe [symmetric] Attach True sc [symmetric]
                "3.prems"])
        then have "T (node, s) (parallelLoop w c rest (AddChild node c') depth s3)"
          by (rule tr [OF r3])
        then show ?thesis using p pe False Attach True sc by simp
      next
        case F: False
        have "T (childNode, s2) (childNode, s2)" by (rule "3.prems"(1))
        then have "T (node, s1) (AddChild node childNode, s2)"
          using "3.prems"(6) pe Attach by simp
        then have r3: "T (node, s) (AddChild node childNode, s2)" by (rule tr [OF r1])
        have "T (AddChild node childNode, s2)
                (parallelLoop w c rest (AddChild node childNode) depth s2)"
          by (rule "3.IH"(4) [OF p [symmetric] bF pe [symmetric] Attach F "3.prems"])
        then have "T (node, s) (parallelLoop w c rest (AddChild node childNode) depth s2)"
          by (rule tr [OF r3])
        then show ?thesis using p pe False Attach F by simp
      qed
    qed
  qed
qed

section \<open>The steps of the traversal\<close>


lemma updateProgress_progress:
  "progress (updateProgress w p c s) =
     (progress s)\<lparr>CurrentPath := p, FilesScanned := FilesScanned (progress s) + 1\<rparr>"
  by (simp add: updateProgress_def trySend_def Let_def)

lemma updateProgress_fields [simp]:
  "root (updateProgress w p c s) = root s"
  "volumeChecker (updateProgress w p c s) = volumeChecker s"
  "skippedVolumes (updateProgress w p c s) = skippedVolumes s"
  "startDeviceID (updateProgress w p c s) = startDeviceID s"
  "oneFilesystem (updateProgress w p c s) = oneFilesystem s"
  "seenInodes (updateProgress w p c s) = seenInodes s"
  "polls (updateProgress w p c s) = polls s"
  "chanClosed (updateProgress w p c s) = chanClosed s"
  by (simp_all add: updateProgress_def trySend_def Let_def)

lemma updateProgress_sent:
  "sent (updateProgress w p c s) = sent s
   \<or> sent (updateProgress w p c s) = sent s @ [progress (updateProgress w p c s)]"
  by (simp add: updateProgress_def trySend_def Let_def)

lemma hasSeenInode_updateProgress [simp]:
  "hasSeenInode (updateProgress w p c s) dev ino = hasSeenInode s dev ino"
  by (simp add: hasSeenInode_def)

lemma shouldSkipFilesystemBoundary_cong:
  "oneFilesystem s' = oneFilesystem s \<Longrightarrow> startDeviceID s' = startDeviceID s \<Longrightarrow>
   shouldSkipFilesystemBoundary s' p st = shouldSkipFilesystemBoundary s p st"
  by (simp add: shouldSkipFilesystemBoundary_def split: sum.splits)

lemma markInodeSeen_fields [simp]:
  "root (markInodeSeen dev ino s) = root s"
  "progress (markInodeSeen dev ino s) = progress s"
  "lastProgressUpdate (markInodeSeen dev ino s) = lastProgressUpdate s"
  "volumeChecker (markInodeSeen dev ino s) = volumeChecker s"
  "skippedVolumes (markInodeSeen dev ino s) = skippedVolumes s"
  "startDeviceID (markInodeSeen dev ino s) = startDeviceID s"
  "oneFilesystem (markInodeSeen dev ino s) = oneFilesystem s"
  "polls (markInodeSeen dev ino s) = polls s"
  "clockReads (markInodeSeen dev ino s) = clockReads s"
  "sendAttempts (markInodeSeen dev ino s) = sendAttempts s"
  "sent (markInodeSeen dev ino s) = sent s"
  "chanClosed (markInodeSeen dev ino s) = chanClosed s"
  by (simp_all add: markInodeSeen_def Let_def)

lemma hasSeenInode_markInodeSeen:
  "hasSeenInode (markInodeSeen dev ino s) dev' ino' \<longleftrightarrow>
     (dev' = dev \<and> ino' = ino) \<or> hasSeenInode s dev' ino'"
  by (auto simp: hasSeenInode_def markInodeSeen_def Let_def split: option.splits)

lemma appendSkipped_fields [simp]:
  "root (appendSkipped x s) = root s"
  "progress (appendSkipped x s) = progress s"
  "lastProgressUpdate (appendSkipped x s) = lastProgressUpdate s"
  "volumeChecker (appendSkipped x s) = volumeChecker s"
  "skippedVolumes (appendSkipped x s) = skippedVolumes s @ [x]"
  "startDeviceID (appendSkipped x s) = startDeviceID s"
  "oneFilesystem (appendSkipped x s) = oneFilesystem s"
  "seenInodes (appendSkipped x s) = seenInodes s"
  "polls (appendSkipped x s) = polls s"
  "clockReads (appendSkipped x s) = clockReads s"
  "sendAttempts (appendSkipped x s) = sendAttempts s"
  "sent (appendSkipped x s) = sent s"
  "chanClosed (appendSkipped x s) = chanClosed s"
  by (simp_all add: appendSkipped_def)

lemma recordError_fields [simp]:
  "root (recordError x s) = root s"
  "progress (recordError x s) = (progress s)\<lparr>Errors := Errors (progress s) @ [x]\<rparr>"
  "lastProgressUpdate (recordError x s) = lastProgressUpdate s"
  "volumeChecker (recordError x s) = volumeChecker s"
  "skippedVolumes (recordError x s) = skippedVolumes s"
  "startDeviceID (recordError x s) = startDeviceID s"
  "oneFilesystem (recordError x s) = oneFilesystem s"
  "seenInodes (recordError x s) = seenInodes s"
  "polls (recordError x s) = polls s"
  "clockReads (recordError x s) = clockReads s"
  "sendAttempts (recordError x s) = sendAttempts s"
  "sent (recordError x s) = sent s"
  "chanClosed (recordError x s) = chanClosed s"
  by (simp_all add: recordError_def)

lemma hasSeenInode_seenInodes:
  "seenInodes s' = seenInodes s \<Longrightarrow> hasSeenInode s' dev ino = hasSeenInode s dev ino"
  by (simp add: hasSeenInode_def)

lemma poll_fields [simp]:
  "root (snd (poll w s)) = root s"
  "progress (snd (poll w s)) = progress s"
  "lastProgressUpdate (snd (poll w s)) = lastProgressUpdate s"
  "volumeChecker (snd (poll w s)) = volumeChecker s"
  "skippedVolumes (snd (poll w s)) = skippedVolumes s"
  "startDeviceID (snd (poll w s)) = startDeviceID s"
  "oneFilesystem (snd (poll w s)) = oneFilesystem s"
  "seenInodes (snd (poll w s)) = seenInodes s"
  "polls (snd (poll w s)) = polls s + 1"
  "clockReads (snd (poll w s)) = clockReads s"
  "sendAttempts (snd (poll w s)) = sendAttempts s"
  "sent (snd (poll w s)) = sent s"
  "chanClosed (snd (poll w s)) = chanClosed s"
  "fst (poll w s) = cancelled w s"
  by (simp_all add: poll_def)

lemma NewFileNode_sel [simp]:
  "Path (NewFileNode p sz d mt) = p"
  "Size (NewFileNode p sz d mt) = sz"
  "IsDir (NewFileNode p sz d mt) = d"
  "Children (NewFileNode p sz d mt) = []"
  by (simp_all add: NewFileNode_def Let_def)

lemma AddChild_sel [simp]:
  "Path (AddChild n ch) = Path n"
  "IsDir (AddChild n ch) = IsDir n"
  "Size (AddChild n ch) = Size n"
  "Children (AddChild n ch) = Children n @ [ch]"
  by (cases n, simp)+


lemma processEntry_placeholder:
  "isICloudPlaceholder (entName e) \<Longrightarrow>
   processEntry w c p e s =
     (Continue, s\<lparr>progress := (progress s)\<lparr>ICloudFilesSkipped :=
                  ICloudFilesSkipped (progress s) + 1\<rparr>\<rparr>)"
  by (simp add: processEntry_def Let_def)

lemma processEntry_volume:
  "\<not> isICloudPlaceholder (entName e) \<Longrightarrow>
   ShouldSkipPath (volumeChecker s) w (filepath_Join p (entName e)) (entStatfs e)
     = (True, reason) \<Longrightarrow>
   processEntry w c p e s =
     (Continue, appendSkipped (filepath_Join p (entName e) @ '' ('' @ reason @ '')'')
                  (updateProgress w (filepath_Join p (entName e)) c s))"
  by (simp add: processEntry_def Let_def)

lemma processEntry_statFailed:
  "\<not> isICloudPlaceholder (entName e) \<Longrightarrow>
   fst (ShouldSkipPath (volumeChecker s) w (filepath_Join p (entName e)) (entStatfs e))
     = False \<Longrightarrow>
   entInfo e = Inl err \<Longrightarrow>
   processEntry w c p e s =
     (Continue, recordError (CannotStat (filepath_Join p (entName e)) err)
                  (updateProgress w (filepath_Join p (entName e)) c s))"
  by (cases "ShouldSkipPath (volumeChecker s) w (filepath_Join p (entName e)) (entStatfs e)")
     (simp add: processEntry_def Let_def)

lemma processEntry_file:
  "\<not> isICloudPlaceholder (entName e) \<Longrightarrow>
   fst (ShouldSkipPath (volumeChecker s) w (filepath_Join p (entName e)) (entStatfs e))
     = False \<Longrightarrow>
   entInfo e = Inr info \<Longrightarrow> \<not> fiIsDir info \<Longrightarrow>
   processEntry w c p e s =
     (Attach (NewFileNode (filepath_Join p (entName e)) (fiSize info) (fiIsDir info)
                (fiModTime info)),
      updateProgress w (filepath_Join p (entName e)) c s)"
  by (cases "ShouldSkipPath (volumeChecker s) w (filepath_Join p (entName e)) (entStatfs e)")
     (simp add: processEntry_def Let_def)

lemma processEntry_seen:
  "\<not> isICloudPlaceholder (entName e) \<Longrightarrow>
   fst (ShouldSkipPath (volumeChecker s) w (filepath_Join p (entName e)) (entStatfs e))
     = False \<Longrightarrow>
   entInfo e = Inr info \<Longrightarrow> fiIsDir info \<Longrightarrow>
   getDeviceAndInode (filepath_Join p (entName e)) (entStat e) = Inr (dev, ino) \<Longrightarrow>
   hasSeenInode s dev ino \<Longrightarrow>
   processEntry w c p e s =
     (Continue, appendSkipped (filepath_Join p (entName e) @ '' (alias/firmlink)'')
                  (updateProgress w (filepath_Join p (entName e)) c s))"
  by (cases "ShouldSkipPath (volumeChecker s) w (filepath_Join p (entName e)) (entStatfs e)")
     (simp add: processEntry_def Let_def)

lemma processEntry_unseen:
  "\<not> isICloudPlaceholder (entName e) \<Longrightarrow>
   fst (ShouldSkipPath (volumeChecker s) w (filepath_Join p (entName e)) (entStatfs e))
     = False \<Longrightarrow>
   entInfo e = Inr info \<Longrightarrow> fiIsDir info \<Longrightarrow>
   getDeviceAndInode (filepath_Join p (entName e)) (entStat e) = Inr (dev, ino) \<Longrightarrow>
   \<not> hasSeenInode s dev ino \<Longrightarrow>
   processEntry w c p e s =
     checkBoundary (filepath_Join p (entName e)) e info
       (markInodeSeen dev ino (updateProgress w (filepath_Join p (entName e)) c s))"
  by (cases "ShouldSkipPath (volumeChecker s) w (filepath_Join p (entName e)) (entStatfs e)")
     (simp add: processEntry_def Let_def)

lemma processEntry_noinode:
  "\<not> isICloudPlaceholder (entName e) \<Longrightarrow>
   fst (ShouldSkipPath (volumeChecker s) w (filepath_Join p (entName e)) (entStatfs e))
     = False \<Longrightarrow>
   entInfo e = Inr info \<Longrightarrow> fiIsDir info \<Longrightarrow>
   getDeviceAndInode (filepath_Join p (entName e)) (entStat e) = Inl err \<Longrightarrow>
   processEntry w c p e s =
     checkBoundary (filepath_Join p (entName e)) e info
       (updateProgress w (filepath_Join p (entName e)) c s)"
  by (cases "ShouldSkipPath (volumeChecker s) w (filepath_Join p (entName e)) (entStatfs e)")
     (simp add: processEntry_def Let_def)

lemma checkBoundary_skip:
  "oneFilesystem s1 = oneFilesystem s \<Longrightarrow> startDeviceID s1 = startDeviceID s \<Longrightarrow>
   shouldSkipFilesystemBoundary s fp (entStat e) = (True, reason) \<Longrightarrow>
   checkBoundary fp e info s1 = (Continue, appendSkipped (fp @ '' ('' @ reason @ '')'') s1)"
  by (simp add: checkBoundary_def shouldSkipFilesystemBoundary_cong [of s1 s])

lemma checkBoundary_attach:
  "oneFilesystem s1 = oneFilesystem s \<Longrightarrow> startDeviceID s1 = startDeviceID s \<Longrightarrow>
   fst (shouldSkipFilesystemBoundary s fp (entStat e)) = False \<Longrightarrow>
   checkBoundary fp e info s1 =
     (Attach (NewFileNode fp (fiSize info) (fiIsDir info) (fiModTime info)), s1)"
  by (cases "shouldSkipFilesystemBoundary s fp (entStat e)")
     (simp add: checkBoundary_def shouldSkipFilesystemBoundary_cong [of s1 s])


text \<open>What one pass through the loop body does: the six ways it can end.\<close>

lemma processEntry_cases:
  assumes "processEntry w c p e s = (r, s')"
  obtains
    (placeholder) "isICloudPlaceholder (entName e)" "r = Continue"
      "s' = s\<lparr>progress := (progress s)\<lparr>ICloudFilesSkipped :=
                  ICloudFilesSkipped (progress s) + 1\<rparr>\<rparr>"
  | (volume) reason where "\<not> isICloudPlaceholder (entName e)" "r = Continue"
      "ShouldSkipPath (volumeChecker s) w (filepath_Join p (entName e)) (entStatfs e)
         = (True, reason)"
      "s' = appendSkipped (filepath_Join p (entName e) @ '' ('' @ reason @ '')'')
              (updateProgress w (filepath_Join p (entName e)) c s)"
  | (statFailed) err where "\<not> isICloudPlaceholder (entName e)" "r = Continue"
      "fst (ShouldSkipPath (volumeChecker s) w (filepath_Join p (entName e)) (entStatfs e))
         = False"
      "entInfo e = Inl err"
      "s' = recordError (CannotStat (filepath_Join p (entName e)) err)
              (updateProgress w (filepath_Join p (entName e)) c s)"
  | (seen) info dev ino where "\<not> isICloudPlaceholder (entName e)" "r = Continue"
      "fst (ShouldSkipPath (volumeChecker s) w (filepath_Join p (entName e)) (entStatfs e))
         = False"
      "entInfo e = Inr info" "fiIsDir info"
      "getDeviceAndInode (filepath_Join p (entName e)) (entStat e) = Inr (dev, ino)"
      "hasSeenInode s dev ino"
      "s' = appendSkipped (filepath_Join p (entName e) @ '' (alias/firmlink)'')
              (updateProgress w (filepath_Join p (entName e)) c s)"
  | (boundary) info s1 reason where "\<not> isICloudPlaceholder (entName e)" "r = Continue"
      "fst (ShouldSkipPath (volumeChecker s) w (filepath_Join p (entName e)) (entStatfs e))
         = False"
      "entInfo e = Inr info" "fiIsDir info"
      "(\<exists>err. getDeviceAndInode (filepath_Join p (entName e)) (entStat e) = Inl err
             \<and> s1 = updateProgress w (filepath_Join p (entName e)) c s)
       \<or> (\<exists>dev ino. getDeviceAndInode (filepath_Join p (entName e)) (entStat e)
                        = Inr (dev, ino)
             \<and> \<not> hasSeenInode s dev ino
             \<and> s1 = markInodeSeen dev ino
                        (updateProgress w (filepath_Join p (entName e)) c s))"
      "shouldSkipFilesystemBoundary s (filepath_Join p (entName e)) (entStat e)
         = (True, reason)"
      "s' = appendSkipped (filepath_Join p (entName e) @ '' ('' @ reason @ '')'') s1"
  | (attach) info where "\<not> isICloudPlaceholder (entName e)"
      "fst (ShouldSkipPath (volumeChecker s) w (filepath_Join p (entName e)) (entStatfs e))
         = False"
      "entInfo e = Inr info"
      "r = Attach (NewFileNode (filepath_Join p (entName e)) (fiSize info) (fiIsDir info)
                      (fiModTime info))"
      "(\<not> fiIsDir info \<and> s' = updateProgress w (filepath_Join p (entName e)) c s)
       \<or> (fiIsDir info
           \<and> fst (shouldSkipFilesystemBoundary s (filepath_Join p (entName e)) (entStat e))
               = False
           \<and> ((\<exists>err. getDeviceAndInode (filepath_Join p (entName e)) (entStat e) = Inl err
                  \<and> s' = updateProgress w (filepath_Join p (entName e)) c s)
              \<or> (\<exists>dev ino. getDeviceAndInode (filepath_Join p (entName e)) (entStat e)
                            = Inr (dev, ino)
                  \<and> \<not> hasSeenInode s dev ino
                  \<and> s' = markInodeSeen dev ino
                            (updateProgress w (filepath_Join p (entName e)) c s))))"
proof -
  let ?fp = "filepath_Join p (entName e)"
  let ?s1 = "updateProgress w ?fp c s"
  show thesis
  proof (cases "isICloudPlaceholder (entName e)")
    case True
    from processEntry_placeholder [OF True] assms
    have "r = Continue" "s' = s\<lparr>progress := (progress s)\<lparr>ICloudFilesSkipped :=
                  ICloudFilesSkipped (progress s) + 1\<rparr>\<rparr>" by simp_all
    then show ?thesis by (rule placeholder [OF True])
  next
    case np: False
    obtain sk reason where
      sp: "ShouldSkipPath (volumeChecker s) w ?fp (entStatfs e) = (sk, reason)"
      by (cases "ShouldSkipPath (volumeChecker s) w ?fp (entStatfs e)")
    show ?thesis
    proof (cases sk)
      case True
      then have sp': "ShouldSkipPath (volumeChecker s) w ?fp (entStatfs e) = (True, reason)"
        using sp by simp
      from processEntry_volume [OF np sp'] assms
      have "r = Continue" "s' = appendSkipped (?fp @ '' ('' @ reason @ '')'') ?s1"
        by simp_all
      then show ?thesis by (rule volume [OF np _ sp'])
    next
      case False
      then have nsk: "fst (ShouldSkipPath (volumeChecker s) w ?fp (entStatfs e)) = False"
        using sp by simp
      show ?thesis
      proof (cases "entInfo e")
        case (Inl err)
        from processEntry_statFailed [OF np nsk Inl] assms
        have "r = Continue" "s' = recordError (CannotStat ?fp err) ?s1" by simp_all
        then show ?thesis by (rule statFailed [OF np _ nsk Inl])
      next
        case (Inr info)
        show ?thesis
        proof (cases "fiIsDir info")
          case False
          from processEntry_file [OF np nsk Inr False] assms
          have "r = Attach (NewFileNode ?fp (fiSize info) (fiIsDir info) (fiModTime info))"
            "s' = ?s1" by simp_all
          then show ?thesis using False by (intro attach [OF np nsk Inr]) simp_all
        next
          case isdir: True
          obtain bs breason where
            sb: "shouldSkipFilesystemBoundary s ?fp (entStat e) = (bs, breason)"
            by (cases "shouldSkipFilesystemBoundary s ?fp (entStat e)")
          have cb: "checkBoundary ?fp e info s1 =
                (if bs then (Continue, appendSkipped (?fp @ '' ('' @ breason @ '')'') s1)
                 else (Attach (NewFileNode ?fp (fiSize info) (fiIsDir info) (fiModTime info)),
                       s1))"
            if "oneFilesystem s1 = oneFilesystem s" "startDeviceID s1 = startDeviceID s" for s1
            using checkBoundary_skip [OF that]
              checkBoundary_attach [OF that] sb
            by (cases bs) simp_all
          show ?thesis
          proof (cases "getDeviceAndInode ?fp (entStat e)")
            case gi: (Inl err)
            have pe: "(r, s') = checkBoundary ?fp e info ?s1"
              using processEntry_noinode [OF np nsk Inr isdir gi] assms by simp
            show ?thesis
            proof (cases bs)
              case True
              then have "r = Continue" "s' = appendSkipped (?fp @ '' ('' @ breason @ '')'') ?s1"
                using pe cb [of ?s1] by simp_all
              then show ?thesis
                using gi sb True
                by (intro boundary [OF np _ nsk Inr isdir, of ?s1 breason]) simp_all
            next
              case False
              then have "r = Attach (NewFileNode ?fp (fiSize info) (fiIsDir info)
                                       (fiModTime info))" "s' = ?s1"
                using pe cb [of ?s1] by simp_all
              then show ?thesis
                using gi sb False isdir
                by (intro attach [OF np nsk Inr]) simp_all
            qed
          next
            case gi0: (Inr di)
            obtain dev ino where di: "di = (dev, ino)" by (cases di)
            have gi: "getDeviceAndInode ?fp (entStat e) = Inr (dev, ino)"
              using gi0 di by simp
            show ?thesis
            proof (cases "hasSeenInode s dev ino")
              case True
              from processEntry_seen [OF np nsk Inr isdir gi True] assms
              have "r = Continue" "s' = appendSkipped (?fp @ '' (alias/firmlink)'') ?s1"
                by simp_all
              then show ?thesis
                by (intro seen [OF np _ nsk Inr isdir gi True]) simp_all
            next
              case ns: False
              let ?s2 = "markInodeSeen dev ino ?s1"
              have pe: "(r, s') = checkBoundary ?fp e info ?s2"
                using processEntry_unseen [OF np nsk Inr isdir gi ns] assms by simp
              show ?thesis
              proof (cases bs)
                case True
                then have "r = Continue"
                  "s' = appendSkipped (?fp @ '' ('' @ breason @ '')'') ?s2"
                  using pe cb [of ?s2] by simp_all
                then show ?thesis
                  using gi sb True ns
                  by (intro boundary [OF np _ nsk Inr isdir, of ?s2 breason]) simp_all
              next
                case False
                then have "r = Attach (NewFileNode ?fp (fiSize info) (fiIsDir info)
                                         (fiModTime info))" "s' = ?s2"
                  using pe cb [of ?s2] by simp_all
                then show ?thesis
                  using gi sb False isdir ns
                  by (intro attach [OF np nsk Inr]) simp_all
              qed
            qed
          qed
        qed
      qed
    qed
  qed
qed

lemma processEntry_state_rel:
  assumes rtrans: "\<And>a b c. R a b \<Longrightarrow> R b c \<Longrightarrow> R a c"
    and rcloud: "\<And>s. R s (s\<lparr>progress := (progress s)\<lparr>ICloudFilesSkipped :=
                  ICloudFilesSkipped (progress s) + 1\<rparr>\<rparr>)"
    and rupd: "\<And>s p. R s (updateProgress w p c s)"
    and rskip: "\<And>s x. R s (appendSkipped x s)"
    and rerr: "\<And>s p e. R s (recordError (CannotStat p e) s)"
    and rmark: "\<And>s dev ino. R s (markInodeSeen dev ino s)"
  shows "R s (snd (processEntry w c p e s))"
proof -
  obtain r s' where pe: "processEntry w c p e s = (r, s')"
    by (cases "processEntry w c p e s")
  let ?s1 = "updateProgress w (filepath_Join p (entName e)) c s"
  have u: "R s ?s1" by (rule rupd)
  have um: "R s (markInodeSeen dev ino ?s1)" for dev ino
    by (rule rtrans [OF u rmark])
  have "R s s'"
    using pe
  proof (cases rule: processEntry_cases)
    case placeholder
    then show ?thesis using rcloud by simp
  next
    case (volume reason)
    then show ?thesis using rtrans [OF u rskip] by simp
  next
    case (statFailed err)
    then show ?thesis using rtrans [OF u rerr] by simp
  next
    case (seen info dev ino)
    then show ?thesis using rtrans [OF u rskip] by simp
  next
    case (boundary info s1 reason)
    then have "R s s1" using u um by auto
    then show ?thesis using boundary rtrans [OF _ rskip] by simp
  next
    case (attach info)
    then show ?thesis using u um by auto
  qed
  then show ?thesis using pe by simp
qed

lemma traversal_state_rel:
  assumes rrefl: "\<And>s. R s s"
    and rtrans: "\<And>a b c. R a b \<Longrightarrow> R b c \<Longrightarrow> R a c"
    and rpoll: "\<And>s. R s (snd (poll w s))"
    and rcloud: "\<And>s. R s (s\<lparr>progress := (progress s)\<lparr>ICloudFilesSkipped :=
                  ICloudFilesSkipped (progress s) + 1\<rparr>\<rparr>)"
    and rupd: "\<And>s p. R s (updateProgress w p c s)"
    and rskip: "\<And>s x. R s (appendSkipped x s)"
    and rerr: "\<And>s p e. R s (recordError (CannotStat p e) s)"
    and rread: "\<And>s p e. R s (recordError (CannotReadDirectory p e) s)"
    and rmark: "\<And>s dev ino. R s (markInodeSeen dev ino s)"
  shows "R s (snd (scanDirectoryParallel w c d node depth s))"
    and "R s (snd (parallelLoop w c ents node depth s))"
    and "R s (snd (scanDirectorySequential w c d node s))"
    and "R s (snd (sequentialLoop w c ents node s))"
proof -
  define T where "T = (\<lambda>(a :: FileNode \<times> Scanner) (b :: FileNode \<times> Scanner). R (snd a) (snd b))"
  have pe: "R s (snd (processEntry w c p e s))" for s p e
    by (rule processEntry_state_rel [OF rtrans rcloud rupd rskip rerr rmark])
  have 1: "T (n, s) (n, s)" for n s by (simp add: T_def rrefl)
  have 2: "T a b \<Longrightarrow> T b c \<Longrightarrow> T a c" for a b c
    unfolding T_def by (auto intro: rtrans)
  have 3: "T (n, s) (n, snd (poll w s))" for n s by (simp add: T_def rpoll)
  have 4: "T (n, s) (n, recordError (CannotReadDirectory p e) s)" for n p e s
    by (simp add: T_def rread)
  have 5: "processEntry w c (Path n) e s = (Continue, s2) \<Longrightarrow> T (n, s) (n, s2)"
    for n e s s2 using pe [of s "Path n" e] by (simp add: T_def)
  have 6: "processEntry w c (Path n) e s = (Attach ch, s2) \<Longrightarrow> T (ch, s2) (ch', s3) \<Longrightarrow>
        T (n, s) (AddChild n ch', s3)" for n e s ch s2 ch' s3
    using pe [of s "Path n" e] by (auto simp: T_def intro: rtrans)
  show "R s (snd (scanDirectoryParallel w c d node depth s))"
    using parallel_inv(1) [of T w c node s d depth, OF 1 2 3 4 5 6] by (simp add: T_def)
  show "R s (snd (parallelLoop w c ents node depth s))"
    using parallel_inv(2) [of T w c node s ents depth, OF 1 2 3 4 5 6] by (simp add: T_def)
  show "R s (snd (scanDirectorySequential w c d node s))"
    using sequential_inv(1) [of T w c node s d, OF 1 2 3 4 5 6] by (simp add: T_def)
  show "R s (snd (sequentialLoop w c ents node s))"
    using sequential_inv(2) [of T w c node s ents, OF 1 2 3 4 5 6] by (simp add: T_def)
qed

lemma cancelled_root [simp]: "cancelled w (s\<lparr>root := r\<rparr>) = cancelled w s"
  by (simp add: cancelled_def split: option.splits)

lemma Scan_cases:
  assumes "Scan w c s = (res, s')"
  obtains
    (invalidPath) err where "absPath w = Inl err"
      "res = (None, Some (InvalidPath err))" "s' = s"
  | (cannotAccess) ap err where "absPath w = Inr ap" "entStat (rootDir w) = Inl err"
      "res = (None, Some (CannotAccessPath err))" "s' = s"
  | (noDeviceID) ap info err where "absPath w = Inr ap" "entStat (rootDir w) = Inr info"
      "oneFilesystem s" "getDeviceID ap (entStat (rootDir w)) = Inl err"
      "res = (None, Some (CannotGetDeviceID err))" "s' = s"
  | (traversed) ap info s1 tree s2 where "absPath w = Inr ap"
      "entStat (rootDir w) = Inr info"
      "(\<not> oneFilesystem s \<and> s1 = s)
       \<or> (oneFilesystem s
           \<and> (\<exists>dev. getDeviceID ap (entStat (rootDir w)) = Inr dev
                    \<and> s1 = s\<lparr>startDeviceID := dev\<rparr>))"
      "(tree, s2) =
         (if fiIsDir info
          then scanDirectoryParallel w c (rootDir w)
                 (NewFileNode ap (fiSize info) (fiIsDir info) (fiModTime info)) 0 s1
          else (NewFileNode ap (fiSize info) (fiIsDir info) (fiModTime info), s1))"
      "res = (Some tree, if cancelled w s2 then Some (ctxErr w) else None)"
      "s' = finishScan w c tree s2"
proof (cases "absPath w")
  case (Inl err)
  then show ?thesis using assms invalidPath by (simp add: Scan_def)
next
  case ap: (Inr ap)
  show ?thesis
  proof (cases "entStat (rootDir w)")
    case (Inl err)
    then show ?thesis using assms ap cannotAccess by (simp add: Scan_def)
  next
    case info: (Inr info)
    let ?n = "NewFileNode ap (fiSize info) (fiIsDir info) (fiModTime info)"
    have fin: "res = (Some tree, if cancelled w s2 then Some (ctxErr w) else None)
               \<and> s' = finishScan w c tree s2"
      if a: "Scan w c s = (res, s')"
        and s1: "(if oneFilesystem s
                then (case getDeviceID ap (entStat (rootDir w)) of
                        Inl err \<Rightarrow> Inl (CannotGetDeviceID err)
                      | Inr devID \<Rightarrow> Inr (s\<lparr>startDeviceID := devID\<rparr>))
                else Inr s) = Inr s1"
        and t: "(tree, s2) = (if fiIsDir info
                     then scanDirectoryParallel w c (rootDir w) ?n 0 s1 else (?n, s1))"
      for s1 tree s2
    proof -
      have "Scan w c s =
         (let (isCancelled, s4) = poll w (s2\<lparr>root := Some tree\<rparr>)
          in if isCancelled
             then ((Some tree, Some (ctxErr w)),
                   s4\<lparr>progress := (progress s4)\<lparr>Complete := False\<rparr>\<rparr>)
             else (let s5 = s4\<lparr>progress := (progress s4)\<lparr>Complete := True\<rparr>\<rparr>
                   in if c then ((Some tree, None), (trySend w s5)\<lparr>chanClosed := True\<rparr>)
                      else ((Some tree, None), s5)))"
        using s1 t [symmetric] by (simp add: Scan_def ap info Let_def)
      then show ?thesis
        using a by (auto simp: poll_def finishScan_def Let_def split: if_splits)
    qed
    show ?thesis
    proof (cases "oneFilesystem s")
      case False
      obtain tree s2 where t: "(tree, s2) = (if fiIsDir info
                     then scanDirectoryParallel w c (rootDir w) ?n 0 s else (?n, s))"
        by (metis surj_pair)
      show ?thesis
        using fin [OF assms _ t] False
        by (intro traversed [OF ap info _ t]) simp_all
    next
      case True
      show ?thesis
      proof (cases "getDeviceID ap (entStat (rootDir w))")
        case (Inl err)
        then show ?thesis
          using assms ap info True noDeviceID [OF ap info True Inl]
          by (simp add: Scan_def)
      next
        case (Inr dev)
        obtain tree s2 where t: "(tree, s2) = (if fiIsDir info
                     then scanDirectoryParallel w c (rootDir w) ?n 0 (s\<lparr>startDeviceID := dev\<rparr>)
                     else (?n, s\<lparr>startDeviceID := dev\<rparr>))"
          by (metis surj_pair)
        show ?thesis
          using fin [OF assms _ t] True Inr
          by (intro traversed [OF ap info _ t]) simp_all
      qed
    qed
  qed
qed

lemma finishScan_fields [simp]:
  "FilesScanned (progress (finishScan w c tree s)) = FilesScanned (progress s)"
  "Errors (progress (finishScan w c tree s)) = Errors (progress s)"
  "ICloudFilesSkipped (progress (finishScan w c tree s)) = ICloudFilesSkipped (progress s)"
  "skippedVolumes (finishScan w c tree s) = skippedVolumes s"
  "startDeviceID (finishScan w c tree s) = startDeviceID s"
  "oneFilesystem (finishScan w c tree s) = oneFilesystem s"
  "seenInodes (finishScan w c tree s) = seenInodes s"
  "polls (finishScan w c tree s) = polls s + 1"
  "root (finishScan w c tree s) = Some tree"
  "Complete (progress (finishScan w c tree s)) = (\<not> cancelled w s)"
  by (simp_all add: finishScan_def trySend_def)

lemma FilesScanned_updateProgress [simp]:
  "FilesScanned (progress (updateProgress w p c s)) = FilesScanned (progress s) + 1"
  "Errors (progress (updateProgress w p c s)) = Errors (progress s)"
  "ICloudFilesSkipped (progress (updateProgress w p c s)) = ICloudFilesSkipped (progress s)"
  "BytesScanned (progress (updateProgress w p c s)) = BytesScanned (progress s)"
  "Complete (progress (updateProgress w p c s)) = Complete (progress s)"
  "CurrentPath (progress (updateProgress w p c s)) = p"
  by (simp_all add: updateProgress_progress)

section \<open>Scan as a whole\<close>


lemma Scan_result:
  assumes "Scan w c s = ((tree, err), s')"
  shows "(err \<noteq> None \<longleftrightarrow> rootFails w s \<or> (\<exists>k. cancelAt w = Some k \<and> k < polls s'))
    \<and> (tree = None \<longleftrightarrow> rootFails w s)
    \<and> (rootFails w s \<longrightarrow> s' = s)
    \<and> (\<not> rootFails w s \<and> (\<exists>k. cancelAt w = Some k \<and> k < polls s') \<longrightarrow>
           err = Some (ctxErr w) \<and> Complete (progress s') = False \<and> root s' = tree)
    \<and> (\<not> rootFails w s \<and> \<not> (\<exists>k. cancelAt w = Some k \<and> k < polls s') \<longrightarrow>
           err = None \<and> Complete (progress s') = True \<and> root s' = tree)"
  using assms
proof (cases rule: Scan_cases)
  case (invalidPath err)
  then show ?thesis by (simp add: rootFails_def)
next
  case (cannotAccess ap err)
  then show ?thesis by (simp add: rootFails_def)
next
  case (noDeviceID ap info err)
  then show ?thesis by (simp add: rootFails_def)
next
  case (traversed ap info s1 tree' s2)
  have nf: "\<not> rootFails w s" using traversed(1,2,3) by (auto simp: rootFails_def)
  have c: "cancelled w s2 \<longleftrightarrow> (\<exists>k. cancelAt w = Some k \<and> k < polls s')"
    using traversed(6) by (auto simp: cancelled_def split: option.splits)
  show ?thesis using traversed(5,6) nf c by auto
qed

lemma Scan_startScan:
  "Scan w c s =
     (case startScan w c s of
        Inl err \<Rightarrow> ((None, Some err), s)
      | Inr (tree, s2) \<Rightarrow>
          ((Some tree, if cancelled w s2 then Some (ctxErr w) else None),
           finishScan w c tree s2))"
  by (auto simp: Scan_def startScan_def finishScan_def poll_def Let_def
           split: sum.splits prod.splits)

lemma startScan_Inr:
  assumes "startScan w c s = Inr (tree, s2)"
  obtains ap info s1 where "absPath w = Inr ap" "entStat (rootDir w) = Inr info"
    "(\<not> oneFilesystem s \<and> s1 = s)
     \<or> (oneFilesystem s
         \<and> (\<exists>dev. getDeviceID ap (entStat (rootDir w)) = Inr dev
                  \<and> s1 = s\<lparr>startDeviceID := dev\<rparr>))"
    "(tree, s2) =
       (if fiIsDir info
        then scanDirectoryParallel w c (rootDir w)
               (NewFileNode ap (fiSize info) (fiIsDir info) (fiModTime info)) 0 s1
        else (NewFileNode ap (fiSize info) (fiIsDir info) (fiModTime info), s1))"
  using assms
  by (auto simp: startScan_def Let_def split: sum.splits if_splits)

lemma startScan_rootFails: "isl (startScan w c s) \<longleftrightarrow> rootFails w s"
  by (auto simp: startScan_def rootFails_def Let_def split: sum.splits)









section \<open>A pass of a loop that skips its entry\<close>


lemma hasSeenInode_poll [simp]: "hasSeenInode (snd (poll w s)) dev ino = hasSeenInode s dev ino"
  by (simp add: hasSeenInode_def)

lemma loop_Continue:
  assumes "\<not> cancelled w s"
    and "processEntry w c (Path node) e (snd (poll w s)) = (Continue, s2)"
  shows "parallelLoop w c (e # rest) node depth s = parallelLoop w c rest node depth s2"
    and "sequentialLoop w c (e # rest) node s = sequentialLoop w c rest node s2"
  using assms by (simp_all add: poll_def)

lemma getDeviceID_of_inode:
  "getDeviceAndInode p st = Inr (dev, ino) \<Longrightarrow> getDeviceID p st = Inr dev"
  by (auto simp: getDeviceAndInode_def getDeviceID_def split: sum.splits option.splits)

lemma processEntry_boundary:
  assumes "oneFilesystem s" and "\<not> isICloudPlaceholder (entName e)"
    and "fst (ShouldSkipPath (volumeChecker s) w (filepath_Join p (entName e)) (entStatfs e))
           = False"
    and "entInfo e = Inr info" and "fiIsDir info"
    and "getDeviceAndInode (filepath_Join p (entName e)) (entStat e) = Inr (dev, ino)"
    and "\<not> hasSeenInode s dev ino" and "dev \<noteq> startDeviceID s"
  shows "processEntry w c p e s =
     (Continue,
      appendSkipped (filepath_Join p (entName e)
                       @ '' (different filesystem (device '' @ showNat (unat dev) @ ''))'')
        (markInodeSeen dev ino (updateProgress w (filepath_Join p (entName e)) c s)))"
proof -
  let ?fp = "filepath_Join p (entName e)"
  have "shouldSkipFilesystemBoundary s ?fp (entStat e)
          = (True, ''different filesystem (device '' @ showNat (unat dev) @ '')'')"
    using assms(1,8) getDeviceID_of_inode [OF assms(6)]
    by (simp add: shouldSkipFilesystemBoundary_def)
  then have "checkBoundary ?fp e info (markInodeSeen dev ino (updateProgress w ?fp c s))
      = (Continue, appendSkipped (?fp @ '' ('' @ (''different filesystem (device ''
                      @ showNat (unat dev) @ '')'') @ '')'')
           (markInodeSeen dev ino (updateProgress w ?fp c s)))"
    by (intro checkBoundary_skip) simp_all
  then show ?thesis
    using processEntry_unseen [OF assms(2,3,4,5,6,7), of c] by simp
qed

lemma optionsKept_traversal:
  "optionsKept s (snd (scanDirectoryParallel w c d node depth s))"
  "optionsKept s (snd (parallelLoop w c ents node depth s))"
  "optionsKept s (snd (scanDirectorySequential w c d node s))"
  "optionsKept s (snd (sequentialLoop w c ents node s))"
  by (rule traversal_state_rel [of optionsKept]; simp add: optionsKept_def)+

lemma Scan_boundary:
  assumes "Scan w c s = ((Some tree, err), s')" and "oneFilesystem s"
  shows "\<exists>ap. absPath w = Inr ap
            \<and> getDeviceID ap (entStat (rootDir w)) = Inr (startDeviceID s')"
  using assms(1)
proof (cases rule: Scan_cases)
  case (traversed ap info s1 tree' s2)
  let ?n = "NewFileNode ap (fiSize info) (fiIsDir info) (fiModTime info)"
  have 1: "getDeviceID ap (entStat (rootDir w)) = Inr (startDeviceID s1)"
    using traversed(3) assms(2) by auto
  have "optionsKept s1 s2"
  proof (cases "fiIsDir info")
    case True
    then have "scanDirectoryParallel w c (rootDir w) ?n 0 s1 = (tree', s2)"
      using traversed(4) by simp
    then have "snd (scanDirectoryParallel w c (rootDir w) ?n 0 s1) = s2" by simp
    then show ?thesis using optionsKept_traversal(1) [of s1 w c "rootDir w" ?n 0] by simp
  next
    case False
    then have "s2 = s1" using traversed(4) by simp
    then show ?thesis by (simp add: optionsKept_def)
  qed
  then have "startDeviceID s' = startDeviceID s1"
    using traversed(6) by (simp add: optionsKept_def)
  then show ?thesis using 1 traversed(1) by simp
qed simp_all

lemma sublist_reason:
  "sublist ''different filesystem''
     (fp @ '' (different filesystem (device '' @ n @ ''))'')"
proof -
  have "fp @ '' (different filesystem (device '' @ n @ ''))''
        = (fp @ '' ('') @ ''different filesystem'' @ ('' (device '' @ n @ ''))'')"
    by simp
  then show ?thesis by (metis sublist_appendI)
qed


lemma seenKept_same: "seenInodes s' = seenInodes s \<Longrightarrow> seenKept s s'"
  by (simp add: seenKept_def hasSeenInode_def)

lemma seenKept_traversal:
  "seenKept s (snd (scanDirectoryParallel w c d node depth s))"
  "seenKept s (snd (parallelLoop w c ents node depth s))"
  "seenKept s (snd (scanDirectorySequential w c d node s))"
  "seenKept s (snd (sequentialLoop w c ents node s))"
  by (rule traversal_state_rel [of seenKept];
      (simp add: seenKept_same)?; simp add: seenKept_def hasSeenInode_markInodeSeen)+

lemma hasSeenInode_appendSkipped [simp]:
  "hasSeenInode (appendSkipped x s) dev ino = hasSeenInode s dev ino"
  by (simp add: hasSeenInode_def)

lemma processEntry_marks:
  assumes "\<not> isICloudPlaceholder (entName e)"
    and "fst (ShouldSkipPath (volumeChecker s) w (filepath_Join p (entName e)) (entStatfs e))
           = False"
    and "entInfo e = Inr info" and "fiIsDir info"
    and "getDeviceAndInode (filepath_Join p (entName e)) (entStat e) = Inr (dev, ino)"
  shows "hasSeenInode (snd (processEntry w c p e s)) dev ino"
proof (cases "hasSeenInode s dev ino")
  case True
  then show ?thesis
    using processEntry_seen [OF assms True, of c] by simp
next
  case False
  have "hasSeenInode (snd (checkBoundary fp e info s1)) dev ino"
    if "hasSeenInode s1 dev ino" for fp s1
    using that
    by (cases "shouldSkipFilesystemBoundary s1 fp (entStat e)")
       (auto simp: checkBoundary_def split: bool.splits)
  then show ?thesis
    using processEntry_unseen [OF assms False, of c]
    by (simp add: hasSeenInode_markInodeSeen)
qed

section \<open>An entry that is not attached\<close>

text \<open>
  A directory entry whose inode is already marked, and a directory entry on another
  device than the boundary, whatever the volume checker says and whatever the name:
  the pass ends in \<^verbatim>\<open>continue\<close>, records no error, and appends one skip record unless
  the name is an iCloud placeholder name. The check that comes first gives the reason.
\<close>

lemma pair_of_fst: "fst p = a \<Longrightarrow> p = (a, snd p)"
  by (cases p) simp

lemma processEntry_marked:
  assumes "hasSeenInode s dev ino"
    and "entInfo e = Inr info" and "fiIsDir info"
    and "getDeviceAndInode (filepath_Join p (entName e)) (entStat e) = Inr (dev, ino)"
  shows "fst (processEntry w c p e s) = Continue"
    and "seenInodes (snd (processEntry w c p e s)) = seenInodes s"
    and "Errors (progress (snd (processEntry w c p e s))) = Errors (progress s)"
    and "isICloudPlaceholder (entName e) \<Longrightarrow>
           skippedVolumes (snd (processEntry w c p e s)) = skippedVolumes s"
    and "\<not> isICloudPlaceholder (entName e) \<Longrightarrow>
           skippedVolumes (snd (processEntry w c p e s)) =
             skippedVolumes s @
               [filepath_Join p (entName e) @ '' ('' @
                  (if fst (ShouldSkipPath (volumeChecker s) w (filepath_Join p (entName e))
                             (entStatfs e))
                   then snd (ShouldSkipPath (volumeChecker s) w (filepath_Join p (entName e))
                               (entStatfs e))
                   else ''alias/firmlink'') @ '')'']"
    and "\<not> isICloudPlaceholder (entName e) \<Longrightarrow>
         \<not> fst (ShouldSkipPath (volumeChecker s) w (filepath_Join p (entName e))
                  (entStatfs e)) \<Longrightarrow>
           snd (processEntry w c p e s) =
             appendSkipped (filepath_Join p (entName e) @ '' (alias/firmlink)'')
               (updateProgress w (filepath_Join p (entName e)) c s)"
proof -
  let ?fp = "filepath_Join p (entName e)"
  let ?k = "ShouldSkipPath (volumeChecker s) w ?fp (entStatfs e)"
  consider (ph) "isICloudPlaceholder (entName e)"
    | (vol) "\<not> isICloudPlaceholder (entName e)" "fst ?k"
    | (al) "\<not> isICloudPlaceholder (entName e)" "\<not> fst ?k"
    by blast
  then have "fst (processEntry w c p e s) = Continue
    \<and> seenInodes (snd (processEntry w c p e s)) = seenInodes s
    \<and> Errors (progress (snd (processEntry w c p e s))) = Errors (progress s)
    \<and> (isICloudPlaceholder (entName e) \<longrightarrow>
           skippedVolumes (snd (processEntry w c p e s)) = skippedVolumes s)
    \<and> (\<not> isICloudPlaceholder (entName e) \<longrightarrow>
           skippedVolumes (snd (processEntry w c p e s)) =
             skippedVolumes s @
               [?fp @ '' ('' @ (if fst ?k then snd ?k else ''alias/firmlink'') @ '')''])
    \<and> (\<not> isICloudPlaceholder (entName e) \<and> \<not> fst ?k \<longrightarrow>
           snd (processEntry w c p e s) =
             appendSkipped (?fp @ '' (alias/firmlink)'') (updateProgress w ?fp c s))"
  proof cases
    case ph
    then show ?thesis by (simp add: processEntry_placeholder)
  next
    case vol
    then have "?k = (True, snd ?k)" by (cases ?k) simp
    then show ?thesis using vol processEntry_volume [OF vol(1), of s w p "snd ?k" c] by simp
  next
    case al
    then show ?thesis using processEntry_seen [of e s w p info dev ino c] assms by simp
  qed
  then show "fst (processEntry w c p e s) = Continue"
    and "seenInodes (snd (processEntry w c p e s)) = seenInodes s"
    and "Errors (progress (snd (processEntry w c p e s))) = Errors (progress s)"
    and "isICloudPlaceholder (entName e) \<Longrightarrow>
           skippedVolumes (snd (processEntry w c p e s)) = skippedVolumes s"
    and "\<not> isICloudPlaceholder (entName e) \<Longrightarrow>
           skippedVolumes (snd (processEntry w c p e s)) =
             skippedVolumes s @
               [?fp @ '' ('' @ (if fst ?k then snd ?k else ''alias/firmlink'') @ '')'']"
    and "\<not> isICloudPlaceholder (entName e) \<Longrightarrow> \<not> fst ?k \<Longrightarrow>
           snd (processEntry w c p e s) =
             appendSkipped (?fp @ '' (alias/firmlink)'') (updateProgress w ?fp c s)"
    by blast+
qed

lemma processEntry_other_device:
  assumes "oneFilesystem s"
    and "entInfo e = Inr info" and "fiIsDir info"
    and "getDeviceAndInode (filepath_Join p (entName e)) (entStat e) = Inr (dev, ino)"
    and "dev \<noteq> startDeviceID s"
  shows "fst (processEntry w c p e s) = Continue"
    and "Errors (progress (snd (processEntry w c p e s))) = Errors (progress s)"
    and "isICloudPlaceholder (entName e) \<Longrightarrow>
           skippedVolumes (snd (processEntry w c p e s)) = skippedVolumes s"
    and "\<not> isICloudPlaceholder (entName e) \<Longrightarrow>
           skippedVolumes (snd (processEntry w c p e s)) =
             skippedVolumes s @
               [filepath_Join p (entName e) @ '' ('' @
                  (if fst (ShouldSkipPath (volumeChecker s) w (filepath_Join p (entName e))
                             (entStatfs e))
                   then snd (ShouldSkipPath (volumeChecker s) w (filepath_Join p (entName e))
                               (entStatfs e))
                   else if hasSeenInode s dev ino then ''alias/firmlink''
                   else ''different filesystem (device '' @ showNat (unat dev) @ '')'') @ '')'']"
    and "\<not> isICloudPlaceholder (entName e) \<Longrightarrow>
         \<not> fst (ShouldSkipPath (volumeChecker s) w (filepath_Join p (entName e))
                  (entStatfs e)) \<Longrightarrow>
         \<not> hasSeenInode s dev ino \<Longrightarrow>
           snd (processEntry w c p e s) =
             appendSkipped (filepath_Join p (entName e)
                       @ '' (different filesystem (device '' @ showNat (unat dev) @ ''))'')
               (markInodeSeen dev ino (updateProgress w (filepath_Join p (entName e)) c s))"
proof -
  let ?fp = "filepath_Join p (entName e)"
  let ?k = "ShouldSkipPath (volumeChecker s) w ?fp (entStatfs e)"
  let ?r = "if fst ?k then snd ?k
            else if hasSeenInode s dev ino then ''alias/firmlink''
            else ''different filesystem (device '' @ showNat (unat dev) @ '')''"
  have b: "\<not> isICloudPlaceholder (entName e) \<Longrightarrow> \<not> fst ?k \<Longrightarrow> \<not> hasSeenInode s dev ino \<Longrightarrow>
      processEntry w c p e s =
       (Continue, appendSkipped (?fp @ '' (different filesystem (device '' @ showNat (unat dev) @ ''))'')
               (markInodeSeen dev ino (updateProgress w ?fp c s)))"
    using processEntry_boundary [of s e w p info dev ino c] assms by simp
  show "fst (processEntry w c p e s) = Continue"
  proof (cases "hasSeenInode s dev ino")
    case True
    then show ?thesis using processEntry_marked(1) [OF True assms(2,3,4)] by simp
  next
    case False
    show ?thesis
    proof (cases "isICloudPlaceholder (entName e)")
      case True
      then show ?thesis by (simp add: processEntry_placeholder)
    next
      case ph: False
      show ?thesis
      proof (cases "fst ?k")
        case True
        then have "?k = (True, snd ?k)" by (cases ?k) simp
        then show ?thesis using processEntry_volume [OF ph, of s w p "snd ?k" c] by simp
      next
        case nk: False
        show ?thesis using b [OF ph nk False] by simp
      qed
    qed
  qed
  show "Errors (progress (snd (processEntry w c p e s))) = Errors (progress s)"
  proof (cases "hasSeenInode s dev ino")
    case True
    then show ?thesis using processEntry_marked(3) [OF True assms(2,3,4)] by simp
  next
    case False
    show ?thesis
    proof (cases "isICloudPlaceholder (entName e)")
      case True
      then show ?thesis by (simp add: processEntry_placeholder)
    next
      case ph: False
      show ?thesis
      proof (cases "fst ?k")
        case True
        then have "?k = (True, snd ?k)" by (cases ?k) simp
        then show ?thesis using processEntry_volume [OF ph, of s w p "snd ?k" c] by simp
      next
        case nk: False
        show ?thesis using b [OF ph nk False] by simp
      qed
    qed
  qed
  show "isICloudPlaceholder (entName e) \<Longrightarrow>
           skippedVolumes (snd (processEntry w c p e s)) = skippedVolumes s"
    by (simp add: processEntry_placeholder)
  show "\<not> isICloudPlaceholder (entName e) \<Longrightarrow>
           skippedVolumes (snd (processEntry w c p e s)) = skippedVolumes s @ [?fp @ '' ('' @ ?r @ '')'']"
  proof -
    assume ph: "\<not> isICloudPlaceholder (entName e)"
    show ?thesis
    proof (cases "fst ?k")
      case True
      then have "?k = (True, snd ?k)" by (cases ?k) simp
      then show ?thesis using True processEntry_volume [OF ph, of s w p "snd ?k" c] by simp
    next
      case nk: False
      show ?thesis
      proof (cases "hasSeenInode s dev ino")
        case True
        then show ?thesis
          using nk processEntry_seen [of e s w p info dev ino c] ph assms by simp
      next
        case False
        then show ?thesis using b [OF ph nk False] nk by simp
      qed
    qed
  qed
  show "\<not> isICloudPlaceholder (entName e) \<Longrightarrow> \<not> fst ?k \<Longrightarrow> \<not> hasSeenInode s dev ino \<Longrightarrow>
           snd (processEntry w c p e s) =
             appendSkipped (?fp @ '' (different filesystem (device '' @ showNat (unat dev) @ ''))'')
               (markInodeSeen dev ino (updateProgress w ?fp c s))"
    using b by simp
qed

section \<open>Deduplication by device and inode\<close>

text \<open>
  C2, as the code has it. An inode that is marked seen stays marked through every
  traversal. When the loop body reaches the inode check with a directory entry (not a
  placeholder, not skipped by the volume checker, \<^verbatim>\<open>Info()\<close> succeeds) for which
  \<^verbatim>\<open>os.Stat\<close> gives the pair \<open>(dev, ino)\<close>, the pair is marked when the pass ends.

  Take a directory entry for which \<^verbatim>\<open>os.Stat\<close> gives a pair that is marked in the state
  the loop reaches it in, with no hypothesis on the volume checker or on the name. The
  pass of the loop body over it ends in \<^verbatim>\<open>continue\<close>: no node is attached, the
  directory is not read, no error is recorded, \<^verbatim>\<open>seenInodes\<close> is unchanged, and when
  the context is not cancelled at the loop's poll both loops go on with the entries
  that are left. Unless its name is an iCloud placeholder name, the pass appends
  exactly one record to the skip list, the path followed by the reason in brackets:
  the volume checker's reason when it skips the path, and \<^verbatim>\<open>alias/firmlink\<close> otherwise.
  Nothing is stated on how often the contents of a directory with two paths are
  visited.
\<close>

theorem C2_seen_inode_not_traversed:
  "(hasSeenInode s dev ino \<longrightarrow>
      hasSeenInode (snd (scanDirectoryParallel w progressChan d node depth s)) dev ino
      \<and> hasSeenInode (snd (parallelLoop w progressChan ents node depth s)) dev ino
      \<and> hasSeenInode (snd (scanDirectorySequential w progressChan d node s)) dev ino
      \<and> hasSeenInode (snd (sequentialLoop w progressChan ents node s)) dev ino)
   \<and> (\<not> isICloudPlaceholder (entName e)
       \<and> fullPath = filepath_Join (Path node) (entName e)
       \<and> fst (ShouldSkipPath (volumeChecker s) w fullPath (entStatfs e)) = False
       \<and> entInfo e = Inr info \<and> fiIsDir info
       \<and> getDeviceAndInode fullPath (entStat e) = Inr (dev, ino)
      \<longrightarrow> hasSeenInode (snd (processEntry w progressChan (Path node) e s)) dev ino)
   \<and> (hasSeenInode s dev ino
       \<and> fullPath = filepath_Join (Path node) (entName e)
       \<and> entInfo e = Inr info \<and> fiIsDir info
       \<and> getDeviceAndInode fullPath (entStat e) = Inr (dev, ino)
       \<and> skip = ShouldSkipPath (volumeChecker s) w fullPath (entStatfs e)
       \<and> reason = (if fst skip then snd skip else ''alias/firmlink'')
       \<and> s2 = snd (processEntry w progressChan (Path node) e (snd (poll w s)))
      \<longrightarrow> fst (processEntry w progressChan (Path node) e (snd (poll w s))) = Continue
          \<and> seenInodes s2 = seenInodes s
          \<and> Errors (progress s2) = Errors (progress s)
          \<and> (\<not> cancelled w s \<longrightarrow>
                parallelLoop w progressChan (e # rest) node depth s
                  = parallelLoop w progressChan rest node depth s2
                \<and> sequentialLoop w progressChan (e # rest) node s
                  = sequentialLoop w progressChan rest node s2)
          \<and> (\<not> isICloudPlaceholder (entName e) \<longrightarrow>
                skippedVolumes s2 = skippedVolumes s @ [fullPath @ '' ('' @ reason @ '')''])
          \<and> (isICloudPlaceholder (entName e) \<longrightarrow> skippedVolumes s2 = skippedVolumes s)
          \<and> (\<not> isICloudPlaceholder (entName e) \<and> \<not> fst skip \<longrightarrow>
                s2 = appendSkipped (fullPath @ '' (alias/firmlink)'')
                       (updateProgress w fullPath progressChan (snd (poll w s)))))"
proof -
  have a: "hasSeenInode s dev ino \<longrightarrow>
      hasSeenInode (snd (scanDirectoryParallel w progressChan d node depth s)) dev ino
      \<and> hasSeenInode (snd (parallelLoop w progressChan ents node depth s)) dev ino
      \<and> hasSeenInode (snd (scanDirectorySequential w progressChan d node s)) dev ino
      \<and> hasSeenInode (snd (sequentialLoop w progressChan ents node s)) dev ino"
    using seenKept_traversal [of s w progressChan]
    unfolding seenKept_def by blast
  have b: "\<not> isICloudPlaceholder (entName e)
       \<and> fullPath = filepath_Join (Path node) (entName e)
       \<and> fst (ShouldSkipPath (volumeChecker s) w fullPath (entStatfs e)) = False
       \<and> entInfo e = Inr info \<and> fiIsDir info
       \<and> getDeviceAndInode fullPath (entStat e) = Inr (dev, ino)
      \<longrightarrow> hasSeenInode (snd (processEntry w progressChan (Path node) e s)) dev ino"
    using processEntry_marks [of e s w "Path node" info dev ino progressChan] by blast
  have c: "fst (processEntry w progressChan (Path node) e (snd (poll w s))) = Continue
          \<and> seenInodes s2 = seenInodes s
          \<and> Errors (progress s2) = Errors (progress s)
          \<and> (\<not> cancelled w s \<longrightarrow>
                parallelLoop w progressChan (e # rest) node depth s
                  = parallelLoop w progressChan rest node depth s2
                \<and> sequentialLoop w progressChan (e # rest) node s
                  = sequentialLoop w progressChan rest node s2)
          \<and> (\<not> isICloudPlaceholder (entName e) \<longrightarrow>
                skippedVolumes s2 = skippedVolumes s @ [fullPath @ '' ('' @ reason @ '')''])
          \<and> (isICloudPlaceholder (entName e) \<longrightarrow> skippedVolumes s2 = skippedVolumes s)
          \<and> (\<not> isICloudPlaceholder (entName e) \<and> \<not> fst skip \<longrightarrow>
                s2 = appendSkipped (fullPath @ '' (alias/firmlink)'')
                       (updateProgress w fullPath progressChan (snd (poll w s))))"
    if h: "hasSeenInode s dev ino" "fullPath = filepath_Join (Path node) (entName e)"
      "entInfo e = Inr info" "fiIsDir info"
      "getDeviceAndInode fullPath (entStat e) = Inr (dev, ino)"
      "skip = ShouldSkipPath (volumeChecker s) w fullPath (entStatfs e)"
      "reason = (if fst skip then snd skip else ''alias/firmlink'')"
      "s2 = snd (processEntry w progressChan (Path node) e (snd (poll w s)))"
  proof -
    let ?s1 = "snd (poll w s)"
    have m: "hasSeenInode ?s1 dev ino" using h(1) by simp
    have g: "getDeviceAndInode (filepath_Join (Path node) (entName e)) (entStat e)
               = Inr (dev, ino)"
      using h(2,5) by simp
    note pe = processEntry_marked [OF m h(3,4) g, of w progressChan]
    have 1: "fst (processEntry w progressChan (Path node) e ?s1) = Continue" by (rule pe(1))
    have 2: "seenInodes s2 = seenInodes s" using pe(2) h(8) by simp
    have 3: "Errors (progress s2) = Errors (progress s)" using pe(3) h(8) by simp
    have 4: "parallelLoop w progressChan (e # rest) node depth s
                  = parallelLoop w progressChan rest node depth s2
                \<and> sequentialLoop w progressChan (e # rest) node s
                  = sequentialLoop w progressChan rest node s2" if nc: "\<not> cancelled w s"
    proof -
      have "processEntry w progressChan (Path node) e ?s1 = (Continue, s2)"
        using pair_of_fst [OF 1] h(8) by simp
      then show ?thesis using loop_Continue [OF nc] by simp
    qed
    have 5: "skippedVolumes s2 = skippedVolumes s @ [fullPath @ '' ('' @ reason @ '')'']"
      if "\<not> isICloudPlaceholder (entName e)"
      using pe(5) [OF that] h(2,6,7,8) by simp
    have 6: "skippedVolumes s2 = skippedVolumes s" if "isICloudPlaceholder (entName e)"
      using pe(4) [OF that] h(8) by simp
    have 7: "s2 = appendSkipped (fullPath @ '' (alias/firmlink)'')
                       (updateProgress w fullPath progressChan (snd (poll w s)))"
      if "\<not> isICloudPlaceholder (entName e)" "\<not> fst skip"
      using pe(6) that h(2,6,8) by simp
    show ?thesis using 1 2 3 4 5 6 7 by blast
  qed
  show ?thesis
    using a b c by blast
qed

text \<open>
  The claim as stated asks for the contents of a directory that is reachable by two
  paths to be visited exactly once. In \<open>exMounts\<close> the paths \<^verbatim>\<open>/root/m1\<close> and
  \<^verbatim>\<open>/root/m2\<close> have the same device and inode, on another device than the root: the
  first is marked seen and then skipped at the file system boundary, the second is
  skipped as an alias. The file below them is visited by neither path: no node is
  attached and only the two directory entries are counted.
\<close>

theorem C2_counterexample:
  "getDeviceAndInode ''/root/m1'' (entStat (exDir ''m1'' 2 7 [exFile ''f'' 5 8])) = Inr (2, 7)
   \<and> getDeviceAndInode ''/root/m2'' (entStat (exDir ''m2'' 2 7 [exFile ''f'' 5 8])) = Inr (2, 7)
   \<and> fst (Scan exMounts True NewScanner)
       = (Some (FileNode ''/root'' ''root'' 64 True 0 [] ''directory'' False), None)
   \<and> skippedVolumes (snd (Scan exMounts True NewScanner))
       = [''/root/m1 (different filesystem (device 2))'', ''/root/m2 (alias/firmlink)'']
   \<and> FilesScanned (progress (snd (Scan exMounts True NewScanner))) = 2"
  by (simp add: exMounts_def ex_defs model_defs)

text \<open>
  The root itself is never marked: \<^verbatim>\<open>Scan\<close> starts the traversal of the root without a
  call of \<^verbatim>\<open>markInodeSeen\<close>. In \<open>exSelf\<close> the directory \<^verbatim>\<open>/root/self\<close> has the device and
  inode of the root; it is attached and read, nothing is skipped, and the file of the
  root is counted at both paths.
\<close>

lemma root_inode_not_marked:
  "getDeviceAndInode ''/root'' (entStat (rootDir exSelf)) = Inr (1, 2)
   \<and> getDeviceAndInode ''/root/self'' (entStat (exDir ''self'' 1 2 [exFile ''a.txt'' 10 3]))
       = Inr (1, 2)
   \<and> fst (Scan exSelf True NewScanner)
       = (Some (FileNode ''/root'' ''root'' 64 True 0
                 [FileNode ''/root/a.txt'' ''a.txt'' 10 False 0 [] ''.txt'' False,
                  FileNode ''/root/self'' ''self'' 64 True 0
                    [FileNode ''/root/self/a.txt'' ''a.txt'' 10 False 0 [] ''.txt'' False]
                    ''directory'' False]
                 ''directory'' False),
          None)
   \<and> skippedVolumes (snd (Scan exSelf True NewScanner)) = []
   \<and> FilesScanned (progress (snd (Scan exSelf True NewScanner))) = 3"
  by (simp add: exSelf_def ex_defs model_defs)

text \<open>
  With the inode \<open>(1, 7)\<close> marked, the entry \<^verbatim>\<open>alias\<close> with that inode is skipped by
  the sequential loop and the file after it is attached; on a fresh scanner the same
  entry leaves the inode marked. When the entry is an NFS mount the volume checker
  comes first: the entry is skipped all the same, with its reason.
\<close>

theorem C2_seen_inode_not_traversed_witness:
  "hasSeenInode (markInodeSeen 1 7 NewScanner) 1 7
   \<and> hasSeenInode (snd (processEntry exMounts True ''/root''
          (exDir ''alias'' 1 7 [exFile ''x'' 1 10]) NewScanner)) 1 7
   \<and> skippedVolumes (snd (sequentialLoop exMounts True
          [exDir ''alias'' 1 7 [exFile ''x'' 1 10], exFile ''a.txt'' 10 3]
          (NewFileNode ''/root'' 64 True 0) (markInodeSeen 1 7 NewScanner)))
       = [''/root/alias (alias/firmlink)'']
   \<and> Children (fst (sequentialLoop exMounts True
          [exDir ''alias'' 1 7 [exFile ''x'' 1 10], exFile ''a.txt'' 10 3]
          (NewFileNode ''/root'' 64 True 0) (markInodeSeen 1 7 NewScanner)))
       = [FileNode ''/root/a.txt'' ''a.txt'' 10 False 0 [] ''.txt'' False]
   \<and> skippedVolumes (snd (sequentialLoop exMounts True
          [exNfs ''alias'' 1 7 [exFile ''x'' 1 10], exFile ''a.txt'' 10 3]
          (NewFileNode ''/root'' 64 True 0) (markInodeSeen 1 7 NewScanner)))
       = [''/root/alias (network volume (nfs))'']
   \<and> Children (fst (sequentialLoop exMounts True
          [exNfs ''alias'' 1 7 [exFile ''x'' 1 10], exFile ''a.txt'' 10 3]
          (NewFileNode ''/root'' 64 True 0) (markInodeSeen 1 7 NewScanner)))
       = [FileNode ''/root/a.txt'' ''a.txt'' 10 False 0 [] ''.txt'' False]"
  using C2_seen_inode_not_traversed [where w = exMounts and progressChan = True
      and d = "rootDir exMounts" and node = "NewFileNode ''/root'' 64 True 0" and depth = 0
      and ents = "[]"
      and s = "markInodeSeen 1 7 NewScanner"
      and e = "exDir ''alias'' 1 7 [exFile ''x'' 1 10]"
      and fullPath = "''/root/alias''" and info = "exInfo 64 True 1 7" and dev = 1 and ino = 7
      and rest = "[exFile ''a.txt'' 10 3]"
      and skip = "(False, [])" and reason = "''alias/firmlink''"
      and ?s2.0 = "snd (processEntry exMounts True ''/root''
                (exDir ''alias'' 1 7 [exFile ''x'' 1 10])
                (snd (poll exMounts (markInodeSeen 1 7 NewScanner))))"]
    C2_seen_inode_not_traversed [where w = exMounts and progressChan = True
      and d = "rootDir exMounts" and node = "NewFileNode ''/root'' 64 True 0" and depth = 0
      and ents = "[]"
      and s = "NewScanner"
      and e = "exDir ''alias'' 1 7 [exFile ''x'' 1 10]"
      and fullPath = "''/root/alias''" and info = "exInfo 64 True 1 7" and dev = 1 and ino = 7
      and rest = "[exFile ''a.txt'' 10 3]"
      and skip = "(False, [])" and reason = "''alias/firmlink''"
      and ?s2.0 = "NewScanner"]
    C2_seen_inode_not_traversed [where w = exMounts and progressChan = True
      and d = "rootDir exMounts" and node = "NewFileNode ''/root'' 64 True 0" and depth = 0
      and ents = "[]"
      and s = "markInodeSeen 1 7 NewScanner"
      and e = "exNfs ''alias'' 1 7 [exFile ''x'' 1 10]"
      and fullPath = "''/root/alias''" and info = "exInfo 64 True 1 7" and dev = 1 and ino = 7
      and rest = "[exFile ''a.txt'' 10 3]"
      and skip = "(True, ''network volume (nfs)'')" and reason = "''network volume (nfs)''"
      and ?s2.0 = "snd (processEntry exMounts True ''/root''
                (exNfs ''alias'' 1 7 [exFile ''x'' 1 10])
                (snd (poll exMounts (markInodeSeen 1 7 NewScanner))))"]
  by (simp add: exMounts_def ex_defs model_defs)

section \<open>A directory that cannot be read\<close>

text \<open>
  A read that never returns, or returns after the timeout, gives the timeout error. A
  failed read makes \<^verbatim>\<open>scanDirectorySequential\<close>, and \<^verbatim>\<open>scanDirectoryParallel\<close> above
  depth 2, record one error and return the node without children. At depth 2 and below
  \<^verbatim>\<open>scanDirectoryParallel\<close> records the error and hands the node to
  \<^verbatim>\<open>scanDirectorySequential\<close>, which reads the directory again and records the error a
  second time.
\<close>

lemma readDirWithTimeout_timeout:
  "entReadNanos d = None \<or> (\<exists>t. entReadNanos d = Some t \<and> dirReadTimeout \<le> t) \<Longrightarrow>
   readDirWithTimeout path d = ([], Some (Timeout path))"
  by (auto simp: readDirWithTimeout_def)

lemma failed_read_sequential:
  assumes "\<not> cancelled w s" and "readDirWithTimeout (Path node) d = (ents, Some err)"
  shows "scanDirectorySequential w c d node s =
           (node, recordError (CannotReadDirectory (Path node) err) (snd (poll w s)))"
  using assms by (simp add: scanDirectorySequential.simps [of w c d node s] poll_def)

lemma failed_read_parallel_shallow:
  assumes "\<not> cancelled w s" and "readDirWithTimeout (Path node) d = (ents, Some err)"
    and "depth < 2"
  shows "scanDirectoryParallel w c d node depth s =
           (node, recordError (CannotReadDirectory (Path node) err) (snd (poll w s)))"
  using assms by (simp add: scanDirectoryParallel.simps [of w c d node depth s] poll_def)

lemma cancelled_recordError [simp]: "cancelled w (recordError e s) = cancelled w s"
  by (simp add: cancelled_def split: option.splits)

lemma failed_read_parallel_deep:
  assumes "\<not> cancelled w (snd (poll w s))"
    and "readDirWithTimeout (Path node) d = (ents, Some err)"
    and "\<not> depth < 2"
  shows "scanDirectoryParallel w c d node depth s =
           (node, recordError (CannotReadDirectory (Path node) err)
                    (snd (poll w (recordError (CannotReadDirectory (Path node) err)
                                    (snd (poll w s))))))"
proof -
  have nc: "\<not> cancelled w s"
    using assms(1) by (auto simp: cancelled_def poll_def split: option.splits)
  let ?s1 = "recordError (CannotReadDirectory (Path node) err) (snd (poll w s))"
  have "scanDirectoryParallel w c d node depth s = scanDirectorySequential w c d node ?s1"
    using nc assms(2,3)
    by (simp add: scanDirectoryParallel.simps [of w c d node depth s] poll_def)
  moreover have "\<not> cancelled w ?s1" using assms(1) by simp
  ultimately show ?thesis
    using failed_read_sequential [of w ?s1 node d ents err c] assms(2) by simp
qed

text \<open>
  C4. In \<open>exDeep\<close> the listings of \<^verbatim>\<open>/root/c\<close> (depth 1) and \<^verbatim>\<open>/root/a/b\<close> (depth 2) never
  return. The scan goes on and attaches both directories without children and their
  siblings as usual. \<^verbatim>\<open>/root/c\<close> gets one timeout error. \<^verbatim>\<open>/root/a/b\<close> gets two:
  \<^verbatim>\<open>scanDirectoryParallel\<close> at depth 2 reads the directory and records the error, then
  calls \<^verbatim>\<open>scanDirectorySequential\<close> on the same node, which reads it and records the
  error again.
\<close>

theorem C4_unreadable_directory_at_depth_2:
  "fst (Scan exDeep True NewScanner)
     = (Some (FileNode ''/root'' ''root'' 64 True 0
               [FileNode ''/root/a'' ''a'' 64 True 0
                  [FileNode ''/root/a/b'' ''b'' 64 True 0 [] ''directory'' False,
                   FileNode ''/root/a/f.txt'' ''f.txt'' 7 False 0 [] ''.txt'' False]
                  ''directory'' False,
                FileNode ''/root/c'' ''c'' 64 True 0 [] ''directory'' False,
                FileNode ''/root/g.txt'' ''g.txt'' 3 False 0 [] ''.txt'' False]
               ''directory'' False),
        None)
   \<and> Errors (progress (snd (Scan exDeep True NewScanner)))
     = [CannotReadDirectory ''/root/a/b'' (Timeout ''/root/a/b''),
        CannotReadDirectory ''/root/a/b'' (Timeout ''/root/a/b''),
        CannotReadDirectory ''/root/c'' (Timeout ''/root/c'')]"
  by (simp add: exDeep_def ex_defs model_defs)

section \<open>The error that Scan returns\<close>

text \<open>
  The error list only grows, in order, and by directory read errors and \<^verbatim>\<open>Info()\<close>
  errors only; a failed read and a failed \<^verbatim>\<open>Info()\<close> put their error in the list, where
  everything that follows keeps it.
\<close>

lemma errorsAppended_iff:
  "errorsAppended s s' \<longleftrightarrow>
     (\<exists>new. Errors (progress s') = Errors (progress s) @ new \<and> list_all isPerEntryError new)"
  by (auto simp: errorsAppended_def prefix_def)

lemma errorsAppended_refl: "errorsAppended s s"
  by (simp add: errorsAppended_iff)

lemma errorsAppended_trans:
  "errorsAppended a b \<Longrightarrow> errorsAppended b c \<Longrightarrow> errorsAppended a c"
  by (auto simp: errorsAppended_iff)

lemma errorsAppended_same:
  "Errors (progress s') = Errors (progress s) \<Longrightarrow> errorsAppended s s'"
  by (simp add: errorsAppended_iff)

lemma errorsAppended_traversal:
  "errorsAppended s (snd (scanDirectoryParallel w c d node depth s))"
  "errorsAppended s (snd (parallelLoop w c ents node depth s))"
  "errorsAppended s (snd (scanDirectorySequential w c d node s))"
  "errorsAppended s (snd (sequentialLoop w c ents node s))"
  by (rule traversal_state_rel [of errorsAppended, OF errorsAppended_refl errorsAppended_trans];
      simp add: errorsAppended_iff isPerEntryError_def isCannotStat_def
                isCannotReadDirectory_def)+

lemma errorsAppended_startScan:
  assumes "startScan w c s = Inr (tree, s2)"
  shows "errorsAppended s s2"
  using assms
proof (cases rule: startScan_Inr)
  case (1 ap info s1)
  have a: "errorsAppended s s1" using 1(3) by (auto intro: errorsAppended_same)
  show ?thesis
  proof (cases "fiIsDir info")
    case True
    then have "s2 = snd (scanDirectoryParallel w c (rootDir w)
                 (NewFileNode ap (fiSize info) (fiIsDir info) (fiModTime info)) 0 s1)"
      using 1(4) by (metis snd_conv)
    then show ?thesis using errorsAppended_trans [OF a errorsAppended_traversal(1)] by simp
  next
    case False
    then show ?thesis using 1(4) a by simp
  qed
qed

lemma errorsAppended_Scan: "errorsAppended s (snd (Scan w c s))"
proof (cases "startScan w c s")
  case (Inl err)
  then show ?thesis by (simp add: Scan_startScan errorsAppended_refl)
next
  case (Inr r)
  obtain tree s2 where r: "r = (tree, s2)" by (cases r)
  have "errorsAppended s2 (finishScan w c tree s2)"
    by (rule errorsAppended_same) simp
  then show ?thesis
    using errorsAppended_trans [OF errorsAppended_startScan [OF Inr [unfolded r]]]
    by (simp add: Scan_startScan Inr r)
qed

lemma Scan_rootError:
  assumes "Scan w c s = ((tree, err), s')" and "rootFails w s"
  shows "\<exists>x. err = Some x \<and> isRootError x"
  using assms(1)
proof (cases rule: Scan_cases)
  case (traversed ap info s1 tree' s2)
  then show ?thesis using assms(2) by (auto simp: rootFails_def)
qed (simp_all add: isRootError_def)

lemma errorsAppended_prefixD:
  "errorsAppended s s' \<Longrightarrow> prefix (Errors (progress s)) (Errors (progress s'))"
  by (simp add: errorsAppended_def)

lemma finishScan_final_snapshot:
  assumes "\<not> cancelled w s2" and "c"
  shows "sendAttempts (finishScan w c tree s2) = sendAttempts s2 + 1"
    and "chanClosed (finishScan w c tree s2)"
    and "chanReady w (sendAttempts s2) \<Longrightarrow>
           sent (finishScan w c tree s2) = sent s2 @ [progress (finishScan w c tree s2)]"
    and "\<not> chanReady w (sendAttempts s2) \<Longrightarrow> sent (finishScan w c tree s2) = sent s2"
  using assms by (simp_all add: finishScan_def trySend_def)

lemma Scan_final_snapshot:
  assumes "Scan w c s = ((tree, None), s')" and "c"
    and "chanReady w (sendAttempts s' - 1)"
  shows "sent s' \<noteq> [] \<and> last (sent s') = progress s' \<and> chanClosed s'"
  using assms(1)
proof (cases rule: Scan_cases)
  case (traversed ap info s1 tree' s2)
  have nc: "\<not> cancelled w s2" using traversed(5) by (simp split: if_splits)
  note f = finishScan_final_snapshot [OF nc assms(2), of tree']
  have r: "chanReady w (sendAttempts s2)"
    using assms(3) f(1) traversed(6) by simp
  show ?thesis
    using f(2) f(3) [OF r] traversed(6) by simp
qed simp_all

text \<open>
  C3, as the code has it. \<^verbatim>\<open>Scan\<close> returns an error exactly when the fatal root case
  holds (the root path does not resolve, \<^verbatim>\<open>os.Stat\<close> fails on it, or with
  \<^verbatim>\<open>oneFilesystem\<close> set its device identifier cannot be read) or the context is
  cancelled at the poll that follows the traversal. It returns no tree exactly in the
  fatal root case, the state is then unchanged and the error returned is the root's. A
  scan that is cancelled returns the tree built so far together with \<^verbatim>\<open>ctx.Err()\<close>, with
  \<^verbatim>\<open>Complete\<close> false. In every other case the error is \<^verbatim>\<open>nil\<close> and \<^verbatim>\<open>Complete\<close> is true,
  whatever the error list holds; so with a context that is never cancelled the error
  is not \<^verbatim>\<open>nil\<close> exactly in the fatal root case.

  The errors of directories and entries go to the error list and nowhere else. Over
  a scan, and over each traversal from any state \<open>s1\<close>, the list that was there is kept
  in order and what is appended are directory read errors and \<^verbatim>\<open>Info()\<close> errors only:
  neither the root's error nor the cancellation is ever in it. A directory whose read
  fails, reached with the context not cancelled, has
  \<^verbatim>\<open>cannot read directory\<close> with its path and cause appended by either traversal
  function, and an entry whose \<^verbatim>\<open>Info()\<close> fails, reached by either loop, has
  \<^verbatim>\<open>cannot stat\<close> with its path and cause appended; the list the function ends with
  begins with the old list and that error. A scan that returns no error, with a
  channel that takes the last send, has sent the final progress as its last snapshot,
  error list included, and has closed the channel.
\<close>

theorem C3_Scan_error:
  "Scan w progressChan s = ((tree, err), s') \<Longrightarrow>
   (err \<noteq> None \<longleftrightarrow> rootFails w s \<or> (\<exists>k. cancelAt w = Some k \<and> k < polls s'))
   \<and> (tree = None \<longleftrightarrow> rootFails w s)
   \<and> (rootFails w s \<longrightarrow> s' = s)
   \<and> (\<not> rootFails w s \<and> (\<exists>k. cancelAt w = Some k \<and> k < polls s') \<longrightarrow>
        err = Some (ctxErr w) \<and> Complete (progress s') = False \<and> root s' = tree)
   \<and> (\<not> rootFails w s \<and> \<not> (\<exists>k. cancelAt w = Some k \<and> k < polls s') \<longrightarrow>
        err = None \<and> Complete (progress s') = True \<and> root s' = tree)
   \<and> (cancelAt w = None \<longrightarrow> (err \<noteq> None \<longleftrightarrow> rootFails w s))
   \<and> (rootFails w s \<longrightarrow> (\<exists>x. err = Some x \<and> isRootError x))
   \<and> errorsAppended s s'
   \<and> (err = None \<and> progressChan \<and> chanReady w (sendAttempts s' - 1) \<longrightarrow>
        sent s' \<noteq> [] \<and> last (sent s') = progress s' \<and> chanClosed s')
   \<and> errorsAppended s1 (snd (scanDirectoryParallel w progressChan d node depth s1))
   \<and> errorsAppended s1 (snd (parallelLoop w progressChan ents node depth s1))
   \<and> errorsAppended s1 (snd (scanDirectorySequential w progressChan d node s1))
   \<and> errorsAppended s1 (snd (sequentialLoop w progressChan ents node s1))
   \<and> (\<not> cancelled w s1 \<and> snd (readDirWithTimeout (Path node) d) = Some x \<longrightarrow>
        prefix (Errors (progress s1) @ [CannotReadDirectory (Path node) x])
          (Errors (progress (snd (scanDirectoryParallel w progressChan d node depth s1))))
        \<and> prefix (Errors (progress s1) @ [CannotReadDirectory (Path node) x])
            (Errors (progress (snd (scanDirectorySequential w progressChan d node s1)))))
   \<and> (\<not> cancelled w s1 \<and> \<not> isICloudPlaceholder (entName e)
       \<and> fullPath = filepath_Join (Path node) (entName e)
       \<and> fst (ShouldSkipPath (volumeChecker s1) w fullPath (entStatfs e)) = False
       \<and> entInfo e = Inl x \<longrightarrow>
        prefix (Errors (progress s1) @ [CannotStat fullPath x])
          (Errors (progress (snd (parallelLoop w progressChan (e # rest) node depth s1))))
        \<and> prefix (Errors (progress s1) @ [CannotStat fullPath x])
            (Errors (progress (snd (sequentialLoop w progressChan (e # rest) node s1)))))"
proof -
  assume a: "Scan w progressChan s = ((tree, err), s')"
  have 1: "(err \<noteq> None \<longleftrightarrow> rootFails w s \<or> (\<exists>k. cancelAt w = Some k \<and> k < polls s'))
   \<and> (tree = None \<longleftrightarrow> rootFails w s)
   \<and> (rootFails w s \<longrightarrow> s' = s)
   \<and> (\<not> rootFails w s \<and> (\<exists>k. cancelAt w = Some k \<and> k < polls s') \<longrightarrow>
        err = Some (ctxErr w) \<and> Complete (progress s') = False \<and> root s' = tree)
   \<and> (\<not> rootFails w s \<and> \<not> (\<exists>k. cancelAt w = Some k \<and> k < polls s') \<longrightarrow>
        err = None \<and> Complete (progress s') = True \<and> root s' = tree)
   \<and> (cancelAt w = None \<longrightarrow> (err \<noteq> None \<longleftrightarrow> rootFails w s))"
    using Scan_result [OF a] by auto
  have 2: "rootFails w s \<longrightarrow> (\<exists>x. err = Some x \<and> isRootError x)"
    using Scan_rootError [OF a] by blast
  have 3: "errorsAppended s s'"
    using errorsAppended_Scan [of s w progressChan] a by simp
  have 4: "\<not> cancelled w s1 \<and> snd (readDirWithTimeout (Path node) d) = Some x \<longrightarrow>
        prefix (Errors (progress s1) @ [CannotReadDirectory (Path node) x])
          (Errors (progress (snd (scanDirectoryParallel w progressChan d node depth s1))))
        \<and> prefix (Errors (progress s1) @ [CannotReadDirectory (Path node) x])
            (Errors (progress (snd (scanDirectorySequential w progressChan d node s1))))"
  proof (intro impI, elim conjE)
    assume h: "\<not> cancelled w s1" "snd (readDirWithTimeout (Path node) d) = Some x"
    obtain es where r: "readDirWithTimeout (Path node) d = (es, Some x)"
      using h(2) by (cases "readDirWithTimeout (Path node) d") simp
    let ?s2 = "recordError (CannotReadDirectory (Path node) x) (snd (poll w s1))"
    have recorded: "Errors (progress ?s2)
                      = Errors (progress s1) @ [CannotReadDirectory (Path node) x]"
      by simp
    have sq: "prefix (Errors (progress s1) @ [CannotReadDirectory (Path node) x])
            (Errors (progress (snd (scanDirectorySequential w progressChan d node s1))))"
      using failed_read_sequential [OF h(1) r, of progressChan] recorded by simp
    have par: "prefix (Errors (progress s1) @ [CannotReadDirectory (Path node) x])
          (Errors (progress (snd (scanDirectoryParallel w progressChan d node depth s1))))"
    proof (cases "depth < 2")
      case True
      then show ?thesis
        using failed_read_parallel_shallow [OF h(1) r True, of progressChan] recorded by simp
    next
      case False
      have "scanDirectoryParallel w progressChan d node depth s1
              = scanDirectorySequential w progressChan d node ?s2"
        using h(1) r False
        by (simp add: scanDirectoryParallel.simps [of w progressChan d node depth s1] poll_def)
      then show ?thesis
        using errorsAppended_prefixD
                [OF errorsAppended_traversal(3) [of ?s2 w progressChan d node]] recorded
        by simp
    qed
    show "prefix (Errors (progress s1) @ [CannotReadDirectory (Path node) x])
          (Errors (progress (snd (scanDirectoryParallel w progressChan d node depth s1))))
        \<and> prefix (Errors (progress s1) @ [CannotReadDirectory (Path node) x])
            (Errors (progress (snd (scanDirectorySequential w progressChan d node s1))))"
      by (intro conjI par sq)
  qed
  have 5: "\<not> cancelled w s1 \<and> \<not> isICloudPlaceholder (entName e)
       \<and> fullPath = filepath_Join (Path node) (entName e)
       \<and> fst (ShouldSkipPath (volumeChecker s1) w fullPath (entStatfs e)) = False
       \<and> entInfo e = Inl x \<longrightarrow>
        prefix (Errors (progress s1) @ [CannotStat fullPath x])
          (Errors (progress (snd (parallelLoop w progressChan (e # rest) node depth s1))))
        \<and> prefix (Errors (progress s1) @ [CannotStat fullPath x])
            (Errors (progress (snd (sequentialLoop w progressChan (e # rest) node s1))))"
  proof (intro impI, elim conjE)
    assume h: "\<not> cancelled w s1" "\<not> isICloudPlaceholder (entName e)"
      "fullPath = filepath_Join (Path node) (entName e)"
      "fst (ShouldSkipPath (volumeChecker s1) w fullPath (entStatfs e)) = False"
      "entInfo e = Inl x"
    let ?s2 = "recordError (CannotStat fullPath x)
                 (updateProgress w fullPath progressChan (snd (poll w s1)))"
    have recorded: "Errors (progress ?s2) = Errors (progress s1) @ [CannotStat fullPath x]"
      by simp
    have pe: "processEntry w progressChan (Path node) e (snd (poll w s1)) = (Continue, ?s2)"
      using processEntry_statFailed [of e "snd (poll w s1)" w "Path node" x progressChan] h
      by simp
    have par: "prefix (Errors (progress s1) @ [CannotStat fullPath x])
          (Errors (progress (snd (parallelLoop w progressChan (e # rest) node depth s1))))"
      using errorsAppended_prefixD
              [OF errorsAppended_traversal(2) [of ?s2 w progressChan rest node depth]]
        loop_Continue(1) [OF h(1) pe, of rest depth] recorded
      by simp
    have sq: "prefix (Errors (progress s1) @ [CannotStat fullPath x])
            (Errors (progress (snd (sequentialLoop w progressChan (e # rest) node s1))))"
      using errorsAppended_prefixD
              [OF errorsAppended_traversal(4) [of ?s2 w progressChan rest node]]
        loop_Continue(2) [OF h(1) pe, of rest] recorded
      by simp
    show "prefix (Errors (progress s1) @ [CannotStat fullPath x])
          (Errors (progress (snd (parallelLoop w progressChan (e # rest) node depth s1))))
        \<and> prefix (Errors (progress s1) @ [CannotStat fullPath x])
            (Errors (progress (snd (sequentialLoop w progressChan (e # rest) node s1))))"
      by (intro conjI par sq)
  qed
  have 6: "err = None \<and> progressChan \<and> chanReady w (sendAttempts s' - 1) \<longrightarrow>
        sent s' \<noteq> [] \<and> last (sent s') = progress s' \<and> chanClosed s'"
    using Scan_final_snapshot [of w progressChan s tree s'] a by blast
  show ?thesis
    by (intro conjI 1 [THEN conjunct1] 1 [THEN conjunct2, THEN conjunct1]
        1 [THEN conjunct2, THEN conjunct2, THEN conjunct1]
        1 [THEN conjunct2, THEN conjunct2, THEN conjunct2, THEN conjunct1]
        1 [THEN conjunct2, THEN conjunct2, THEN conjunct2, THEN conjunct2, THEN conjunct1]
        1 [THEN conjunct2, THEN conjunct2, THEN conjunct2, THEN conjunct2, THEN conjunct2]
        2 3 4 5 6 errorsAppended_traversal)
qed

text \<open>
  The claim as stated has \<^verbatim>\<open>Scan\<close> return a \<^verbatim>\<open>nil\<close> error whenever the root resolves and
  can be stat-ed, a cancelled scan included. In \<open>exCancelled\<close> the root resolves, its
  stat and its device identifier are read, and the scan returns the partial tree with
  the error \<^verbatim>\<open>context.Canceled\<close>.
\<close>

theorem C3_counterexample:
  "absPath exCancelled = Inr ''/root''
   \<and> entStat (rootDir exCancelled) = Inr (exInfo 64 True 1 2)
   \<and> getDeviceID ''/root'' (entStat (rootDir exCancelled)) = Inr 1
   \<and> fst (Scan exCancelled True NewScanner)
       = (Some (FileNode ''/root'' ''root'' 64 True 0
                 [FileNode ''/root/a.txt'' ''a.txt'' 10 False 0 [] ''.txt'' False,
                  FileNode ''/root/locked'' ''locked'' 64 True 0 [] ''directory'' False]
                 ''directory'' False),
          Some ContextCanceled)"
  by (simp add: exCancelled_def ex_defs model_defs)

text \<open>
  The cancelled scan of \<open>exCancelled\<close>; the same run with a root path that does not
  resolve; and the scan of \<open>exErrors\<close>, which returns the tree and no error with the
  two failures in the error list and in the last snapshot.
\<close>

theorem C3_Scan_error_witness:
  "\<not> rootFails exCancelled NewScanner
   \<and> cancelAt exCancelled = Some 3
   \<and> polls (snd (Scan exCancelled True NewScanner)) = 5
   \<and> snd (fst (Scan exCancelled True NewScanner)) = Some (ctxErr exCancelled)
   \<and> fst (fst (Scan exCancelled True NewScanner)) \<noteq> None
   \<and> rootFails (exCancelled\<lparr>absPath := Inl (OSError ''getwd'')\<rparr>) NewScanner
   \<and> Scan (exCancelled\<lparr>absPath := Inl (OSError ''getwd'')\<rparr>) True NewScanner
       = ((None, Some (InvalidPath (OSError ''getwd''))), NewScanner)
   \<and> isRootError (InvalidPath (OSError ''getwd''))
   \<and> fst (Scan exErrors True NewScanner)
       = (Some (FileNode ''/root'' ''root'' 64 True 0
                 [FileNode ''/root/locked'' ''locked'' 64 True 0 [] ''directory'' False,
                  FileNode ''/root/a.txt'' ''a.txt'' 10 False 0 [] ''.txt'' False]
                 ''directory'' False),
          None)
   \<and> Errors (progress (snd (Scan exErrors True NewScanner)))
       = [CannotStat ''/root/tmp'' (OSError ''no such file or directory''),
          CannotReadDirectory ''/root/locked'' (OSError ''permission denied'')]
   \<and> Errors (last (sent (snd (Scan exErrors True NewScanner))))
       = [CannotStat ''/root/tmp'' (OSError ''no such file or directory''),
          CannotReadDirectory ''/root/locked'' (OSError ''permission denied'')]
   \<and> Errors (progress (snd (scanDirectoryParallel exErrors True (exUnreadable ''locked'' 4)
          (NewFileNode ''/root/locked'' 64 True 0) 1 NewScanner)))
       = [CannotReadDirectory ''/root/locked'' (OSError ''permission denied'')]
   \<and> Errors (progress (snd (sequentialLoop exErrors True [exGone ''tmp'']
          (NewFileNode ''/root'' 64 True 0) NewScanner)))
       = [CannotStat ''/root/tmp'' (OSError ''no such file or directory'')]"
  using C3_Scan_error [of exCancelled True NewScanner
      "fst (fst (Scan exCancelled True NewScanner))"
      "snd (fst (Scan exCancelled True NewScanner))"
      "snd (Scan exCancelled True NewScanner)"
      NewScanner "exUnreadable ''locked'' 4" "NewFileNode ''/root/locked'' 64 True 0" 1 "[]"
      "OSError ''permission denied''" "exGone ''tmp''" "''/root/tmp''" "[]"]
    C3_Scan_error [of "exCancelled\<lparr>absPath := Inl (OSError ''getwd'')\<rparr>" True NewScanner
      None "Some (InvalidPath (OSError ''getwd''))" NewScanner
      NewScanner "exUnreadable ''locked'' 4" "NewFileNode ''/root/locked'' 64 True 0" 1 "[]"
      "OSError ''permission denied''" "exGone ''tmp''" "''/root/tmp''" "[]"]
    C3_Scan_error [of exErrors True NewScanner
      "fst (fst (Scan exErrors True NewScanner))"
      "snd (fst (Scan exErrors True NewScanner))"
      "snd (Scan exErrors True NewScanner)"
      NewScanner "exUnreadable ''locked'' 4" "NewFileNode ''/root/locked'' 64 True 0" 1 "[]"
      "OSError ''permission denied''" "exGone ''tmp''" "''/root/tmp''" "[]"]
  by (simp add: exCancelled_def ex_defs model_defs rootFails_def isRootError_def)

section \<open>Cancellation\<close>



section \<open>Progress reporting\<close>

text \<open>
  C7. Every call of \<^verbatim>\<open>updateProgress\<close> sets \<^verbatim>\<open>CurrentPath\<close> and adds 1 to
  \<^verbatim>\<open>FilesScanned\<close>. It tries a send (one more \<open>sendAttempts\<close>) exactly when there is a
  channel and either more than 100 ms have passed since \<^verbatim>\<open>lastProgressUpdate\<close> or the
  new \<^verbatim>\<open>FilesScanned\<close> is a multiple of 100; so a snapshot is flushed only when at least
  100 ms have passed or the count is a multiple of 100. Without a send nothing is sent
  and \<^verbatim>\<open>lastProgressUpdate\<close> stays. A send to a ready channel appends the new progress
  to what was sent; a send to a channel that is not ready drops the snapshot, and the
  call returns all the same with the progress updated. Every send, taken or dropped,
  stores the time that was read in \<^verbatim>\<open>lastProgressUpdate\<close>, and every call reads the clock
  once.
\<close>

theorem C7_updateProgress_throttled:
  "s' = updateProgress w currentPath progressChan s \<Longrightarrow>
   CurrentPath (progress s') = currentPath
   \<and> FilesScanned (progress s') = FilesScanned (progress s) + 1
   \<and> (sendAttempts s' = sendAttempts s \<or> sendAttempts s' = sendAttempts s + 1)
   \<and> (sendAttempts s' = sendAttempts s + 1 \<longleftrightarrow>
        progressChan \<and>
        (100 < sint (now w (clockReads s) - lastProgressUpdate s)
         \<or> sint (FilesScanned (progress s')) smod 100 = 0))
   \<and> (sendAttempts s' = sendAttempts s + 1 \<longrightarrow>
        100 \<le> sint (now w (clockReads s) - lastProgressUpdate s)
        \<or> sint (FilesScanned (progress s')) smod 100 = 0)
   \<and> (sendAttempts s' = sendAttempts s \<longrightarrow>
        sent s' = sent s \<and> lastProgressUpdate s' = lastProgressUpdate s)
   \<and> (sendAttempts s' = sendAttempts s + 1 \<and> chanReady w (sendAttempts s) \<longrightarrow>
        sent s' = sent s @ [progress s'])
   \<and> (sendAttempts s' = sendAttempts s + 1 \<and> \<not> chanReady w (sendAttempts s) \<longrightarrow>
        sent s' = sent s)
   \<and> progress s' = (progress s)\<lparr>CurrentPath := currentPath,
                                  FilesScanned := FilesScanned (progress s) + 1\<rparr>
   \<and> (sendAttempts s' = sendAttempts s + 1 \<longrightarrow>
        lastProgressUpdate s' = now w (clockReads s))
   \<and> clockReads s' = clockReads s + 1"
  by (auto simp: updateProgress_def trySend_def Let_def word_sless_alt)

text \<open>
  Three calls on a fresh scanner whose channel is full: the 100th entry 50 ms after
  the last flush is flushed and dropped; the first entry 5 s after the start is
  flushed and sent when the channel has room; an entry 50 ms after the last flush
  that is not the 100th is not flushed.
\<close>

theorem C7_updateProgress_throttled_witness:
  "sendAttempts (updateProgress ((exWorld (exDir ''root'' 1 2 []) None)
        \<lparr>now := \<lambda>k. 1050, chanReady := \<lambda>k. False\<rparr>) ''/root/a'' True
        (NewScanner\<lparr>lastProgressUpdate := 1000,
                    progress := (progress NewScanner)\<lparr>FilesScanned := 99\<rparr>\<rparr>)) = 1
   \<and> sent (updateProgress ((exWorld (exDir ''root'' 1 2 []) None)
        \<lparr>now := \<lambda>k. 1050, chanReady := \<lambda>k. False\<rparr>) ''/root/a'' True
        (NewScanner\<lparr>lastProgressUpdate := 1000,
                    progress := (progress NewScanner)\<lparr>FilesScanned := 99\<rparr>\<rparr>)) = []
   \<and> FilesScanned (progress (updateProgress ((exWorld (exDir ''root'' 1 2 []) None)
        \<lparr>now := \<lambda>k. 1050, chanReady := \<lambda>k. False\<rparr>) ''/root/a'' True
        (NewScanner\<lparr>lastProgressUpdate := 1000,
                    progress := (progress NewScanner)\<lparr>FilesScanned := 99\<rparr>\<rparr>))) = 100
   \<and> lastProgressUpdate (updateProgress ((exWorld (exDir ''root'' 1 2 []) None)
        \<lparr>now := \<lambda>k. 1050, chanReady := \<lambda>k. False\<rparr>) ''/root/a'' True
        (NewScanner\<lparr>lastProgressUpdate := 1000,
                    progress := (progress NewScanner)\<lparr>FilesScanned := 99\<rparr>\<rparr>)) = 1050"
  using C7_updateProgress_throttled [OF refl,
      of "(exWorld (exDir ''root'' 1 2 []) None)\<lparr>now := \<lambda>k. 1050, chanReady := \<lambda>k. False\<rparr>"
         "''/root/a''" True
         "NewScanner\<lparr>lastProgressUpdate := 1000,
                     progress := (progress NewScanner)\<lparr>FilesScanned := 99\<rparr>\<rparr>"]
  by (simp add: ex_defs NewScanner_def signed_modulo_int_def)

section \<open>The file system boundary\<close>

text \<open>
  C8, as the code has it. With \<^verbatim>\<open>oneFilesystem\<close> set, a \<^verbatim>\<open>Scan\<close> that returns a tree has
  the root's device identifier in \<^verbatim>\<open>startDeviceID\<close>, and no traversal changes it. Take
  a directory entry (\<^verbatim>\<open>Info()\<close> gives a directory) for which \<^verbatim>\<open>os.Stat\<close> gives a device
  that differs from \<^verbatim>\<open>startDeviceID\<close>, with no hypothesis on the volume checker or on
  the inodes seen. The pass of the loop body over it ends in \<^verbatim>\<open>continue\<close>: no node is
  attached, the directory is not read, no error is recorded, and when the context is
  not cancelled at the loop's poll both loops go on with the entries that are left.
  Unless its name is an iCloud placeholder name, the pass appends exactly one record
  to the skip list, the path followed by the reason in brackets. The reason is the
  volume checker's when it skips the path, \<^verbatim>\<open>alias/firmlink\<close> when it does not and the
  inode is marked seen, and \<^verbatim>\<open>different filesystem (device N)\<close> otherwise; in that last
  case the inode has been marked before the skip. A placeholder name leaves the skip
  list as it was.
\<close>

theorem C8_filesystem_boundary:
  "(Scan w progressChan s0 = ((Some tree, err), s') \<and> oneFilesystem s0 \<longrightarrow>
      (\<exists>ap. absPath w = Inr ap
            \<and> getDeviceID ap (entStat (rootDir w)) = Inr (startDeviceID s')))
   \<and> startDeviceID (snd (scanDirectoryParallel w progressChan d node depth s))
        = startDeviceID s
   \<and> (oneFilesystem s
       \<and> fullPath = filepath_Join (Path node) (entName e)
       \<and> entInfo e = Inr info \<and> fiIsDir info
       \<and> getDeviceAndInode fullPath (entStat e) = Inr (dev, ino)
       \<and> dev \<noteq> startDeviceID s
       \<and> skip = ShouldSkipPath (volumeChecker s) w fullPath (entStatfs e)
       \<and> reason = (if fst skip then snd skip
                   else if hasSeenInode s dev ino then ''alias/firmlink''
                   else ''different filesystem (device '' @ showNat (unat dev) @ '')'')
       \<and> s2 = snd (processEntry w progressChan (Path node) e (snd (poll w s)))
      \<longrightarrow> fst (processEntry w progressChan (Path node) e (snd (poll w s))) = Continue
          \<and> Errors (progress s2) = Errors (progress s)
          \<and> (\<not> cancelled w s \<longrightarrow>
                parallelLoop w progressChan (e # rest) node depth s
                  = parallelLoop w progressChan rest node depth s2
                \<and> sequentialLoop w progressChan (e # rest) node s
                  = sequentialLoop w progressChan rest node s2)
          \<and> (\<not> isICloudPlaceholder (entName e) \<longrightarrow>
                skippedVolumes s2 = skippedVolumes s @ [fullPath @ '' ('' @ reason @ '')''])
          \<and> (isICloudPlaceholder (entName e) \<longrightarrow> skippedVolumes s2 = skippedVolumes s)
          \<and> (\<not> isICloudPlaceholder (entName e) \<and> \<not> fst skip \<and> \<not> hasSeenInode s dev ino \<longrightarrow>
                sublist ''different filesystem'' (last (skippedVolumes s2))
                \<and> s2 = appendSkipped
                         (fullPath @ '' (different filesystem (device ''
                            @ showNat (unat dev) @ ''))'')
                         (markInodeSeen dev ino
                            (updateProgress w fullPath progressChan (snd (poll w s))))))"
proof -
  have a: "Scan w progressChan s0 = ((Some tree, err), s') \<and> oneFilesystem s0 \<longrightarrow>
      (\<exists>ap. absPath w = Inr ap
            \<and> getDeviceID ap (entStat (rootDir w)) = Inr (startDeviceID s'))"
    using Scan_boundary by blast
  have b: "startDeviceID (snd (scanDirectoryParallel w progressChan d node depth s))
        = startDeviceID s"
    using optionsKept_traversal(1) [of s w progressChan d node depth]
    by (simp add: optionsKept_def)
  have c: "fst (processEntry w progressChan (Path node) e (snd (poll w s))) = Continue
          \<and> Errors (progress s2) = Errors (progress s)
          \<and> (\<not> cancelled w s \<longrightarrow>
                parallelLoop w progressChan (e # rest) node depth s
                  = parallelLoop w progressChan rest node depth s2
                \<and> sequentialLoop w progressChan (e # rest) node s
                  = sequentialLoop w progressChan rest node s2)
          \<and> (\<not> isICloudPlaceholder (entName e) \<longrightarrow>
                skippedVolumes s2 = skippedVolumes s @ [fullPath @ '' ('' @ reason @ '')''])
          \<and> (isICloudPlaceholder (entName e) \<longrightarrow> skippedVolumes s2 = skippedVolumes s)
          \<and> (\<not> isICloudPlaceholder (entName e) \<and> \<not> fst skip \<and> \<not> hasSeenInode s dev ino \<longrightarrow>
                sublist ''different filesystem'' (last (skippedVolumes s2))
                \<and> s2 = appendSkipped
                         (fullPath @ '' (different filesystem (device ''
                            @ showNat (unat dev) @ ''))'')
                         (markInodeSeen dev ino
                            (updateProgress w fullPath progressChan (snd (poll w s)))))"
    if h: "oneFilesystem s" "fullPath = filepath_Join (Path node) (entName e)"
      "entInfo e = Inr info" "fiIsDir info"
      "getDeviceAndInode fullPath (entStat e) = Inr (dev, ino)" "dev \<noteq> startDeviceID s"
      "skip = ShouldSkipPath (volumeChecker s) w fullPath (entStatfs e)"
      "reason = (if fst skip then snd skip
                   else if hasSeenInode s dev ino then ''alias/firmlink''
                   else ''different filesystem (device '' @ showNat (unat dev) @ '')'')"
      "s2 = snd (processEntry w progressChan (Path node) e (snd (poll w s)))"
  proof -
    let ?s1 = "snd (poll w s)"
    have o: "oneFilesystem ?s1" "dev \<noteq> startDeviceID ?s1" using h(1,6) by simp_all
    have g: "getDeviceAndInode (filepath_Join (Path node) (entName e)) (entStat e)
               = Inr (dev, ino)"
      using h(2,5) by simp
    note pe = processEntry_other_device [OF o(1) h(3,4) g o(2), of w progressChan]
    have 1: "fst (processEntry w progressChan (Path node) e ?s1) = Continue" by (rule pe(1))
    have 2: "Errors (progress s2) = Errors (progress s)" using pe(2) h(9) by simp
    have 3: "parallelLoop w progressChan (e # rest) node depth s
                  = parallelLoop w progressChan rest node depth s2
                \<and> sequentialLoop w progressChan (e # rest) node s
                  = sequentialLoop w progressChan rest node s2" if nc: "\<not> cancelled w s"
    proof -
      have "processEntry w progressChan (Path node) e ?s1 = (Continue, s2)"
        using pair_of_fst [OF 1] h(9) by simp
      then show ?thesis using loop_Continue [OF nc] by simp
    qed
    have 4: "skippedVolumes s2 = skippedVolumes s @ [fullPath @ '' ('' @ reason @ '')'']"
      if "\<not> isICloudPlaceholder (entName e)"
      using pe(4) [OF that] h(2,7,8,9) by simp
    have 5: "skippedVolumes s2 = skippedVolumes s" if "isICloudPlaceholder (entName e)"
      using pe(3) [OF that] h(9) by simp
    have 6: "s2 = appendSkipped
                         (fullPath @ '' (different filesystem (device ''
                            @ showNat (unat dev) @ ''))'')
                         (markInodeSeen dev ino
                            (updateProgress w fullPath progressChan (snd (poll w s))))"
      if "\<not> isICloudPlaceholder (entName e)" "\<not> fst skip" "\<not> hasSeenInode s dev ino"
      using pe(5) that h(2,7,9) by simp
    have 7: "sublist ''different filesystem'' (last (skippedVolumes s2))"
      if "\<not> isICloudPlaceholder (entName e)" "\<not> fst skip" "\<not> hasSeenInode s dev ino"
      using 6 [OF that] sublist_reason by simp
    show ?thesis using 1 2 3 4 5 6 7 by blast
  qed
  show ?thesis
    using a b c by blast
qed

text \<open>
  The claim as stated gives every directory on another device the reason
  "different filesystem". In \<open>exNetwork\<close> the directory \<^verbatim>\<open>/root/nas\<close> is on device 7, the
  root on device 1; the volume checker comes first and skips it as a network volume,
  and the skip record does not mention the file system.
\<close>

theorem C8_counterexample:
  "oneFilesystem NewScanner
   \<and> startDeviceID (snd (Scan exNetwork True NewScanner)) = 1
   \<and> entInfo (exNfs ''nas'' 7 9 [exFile ''x'' 1 10]) = Inr (exInfo 64 True 7 9)
   \<and> getDeviceID ''/root/nas'' (entStat (exNfs ''nas'' 7 9 [exFile ''x'' 1 10])) = Inr 7
   \<and> skippedVolumes (snd (Scan exNetwork True NewScanner))
       = [''/root/nas (network volume (nfs))'']
   \<and> \<not> sublist ''different filesystem'' ''/root/nas (network volume (nfs))''"
  by (simp add: exNetwork_def ex_defs model_defs sublist_code)

text \<open>
  A loop over a directory on device 2 and a file, with the boundary at device 1: the
  directory is skipped with the reason and the file is attached. The same loop over
  the NFS mount on device 7: the directory is skipped all the same, with the volume
  checker's reason.
\<close>

theorem C8_filesystem_boundary_witness:
  "startDeviceID (snd (Scan exMounts True NewScanner)) = 1
   \<and> hasSeenInode (NewScanner\<lparr>startDeviceID := 1\<rparr>) 2 9 = False
   \<and> skippedVolumes (snd (parallelLoop exMounts True
          [exDir ''mnt'' 2 9 [exFile ''x'' 1 10], exFile ''a.txt'' 10 3]
          (NewFileNode ''/root'' 64 True 0) 0 (NewScanner\<lparr>startDeviceID := 1\<rparr>)))
       = [''/root/mnt (different filesystem (device 2))'']
   \<and> Children (fst (parallelLoop exMounts True
          [exDir ''mnt'' 2 9 [exFile ''x'' 1 10], exFile ''a.txt'' 10 3]
          (NewFileNode ''/root'' 64 True 0) 0 (NewScanner\<lparr>startDeviceID := 1\<rparr>)))
       = [FileNode ''/root/a.txt'' ''a.txt'' 10 False 0 [] ''.txt'' False]
   \<and> skippedVolumes (snd (parallelLoop exNetwork True
          [exNfs ''nas'' 7 9 [exFile ''x'' 1 10], exFile ''a.txt'' 10 3]
          (NewFileNode ''/root'' 64 True 0) 0 (NewScanner\<lparr>startDeviceID := 1\<rparr>)))
       = [''/root/nas (network volume (nfs))'']
   \<and> Children (fst (parallelLoop exNetwork True
          [exNfs ''nas'' 7 9 [exFile ''x'' 1 10], exFile ''a.txt'' 10 3]
          (NewFileNode ''/root'' 64 True 0) 0 (NewScanner\<lparr>startDeviceID := 1\<rparr>)))
       = [FileNode ''/root/a.txt'' ''a.txt'' 10 False 0 [] ''.txt'' False]"
  using C8_filesystem_boundary [where w = exMounts and progressChan = True
      and ?s0.0 = NewScanner
      and tree = "the (fst (fst (Scan exMounts True NewScanner)))"
      and err = "snd (fst (Scan exMounts True NewScanner))"
      and s' = "snd (Scan exMounts True NewScanner)"
      and d = "rootDir exMounts" and node = "NewFileNode ''/root'' 64 True 0" and depth = 0
      and s = "NewScanner\<lparr>startDeviceID := 1\<rparr>"
      and e = "exDir ''mnt'' 2 9 [exFile ''x'' 1 10]"
      and fullPath = "''/root/mnt''" and info = "exInfo 64 True 2 9" and dev = 2 and ino = 9
      and rest = "[exFile ''a.txt'' 10 3]"
      and skip = "(False, [])"
      and reason = "''different filesystem (device 2)''"
      and ?s2.0 = "snd (processEntry exMounts True ''/root''
                (exDir ''mnt'' 2 9 [exFile ''x'' 1 10])
                (snd (poll exMounts (NewScanner\<lparr>startDeviceID := 1\<rparr>))))"]
    C8_filesystem_boundary [where w = exNetwork and progressChan = True
      and ?s0.0 = NewScanner
      and tree = "the (fst (fst (Scan exNetwork True NewScanner)))"
      and err = "snd (fst (Scan exNetwork True NewScanner))"
      and s' = "snd (Scan exNetwork True NewScanner)"
      and d = "rootDir exNetwork" and node = "NewFileNode ''/root'' 64 True 0" and depth = 0
      and s = "NewScanner\<lparr>startDeviceID := 1\<rparr>"
      and e = "exNfs ''nas'' 7 9 [exFile ''x'' 1 10]"
      and fullPath = "''/root/nas''" and info = "exInfo 64 True 7 9" and dev = 7 and ino = 9
      and rest = "[exFile ''a.txt'' 10 3]"
      and skip = "(True, ''network volume (nfs)'')"
      and reason = "''network volume (nfs)''"
      and ?s2.0 = "snd (processEntry exNetwork True ''/root''
                (exNfs ''nas'' 7 9 [exFile ''x'' 1 10])
                (snd (poll exNetwork (NewScanner\<lparr>startDeviceID := 1\<rparr>))))"]
  by (simp add: exMounts_def exNetwork_def ex_defs model_defs)

section \<open>The byte counter\<close>

lemma bytesKept_refl: "bytesKept s s"
  by (simp add: bytesKept_def)

lemma bytesKept_trans: "bytesKept a b \<Longrightarrow> bytesKept b c \<Longrightarrow> bytesKept a c"
  unfolding bytesKept_def by metis

lemma bytesKept_updateProgress: "bytesKept s (updateProgress w p c s)"
  using updateProgress_sent [of w p c s]
  by (auto simp: bytesKept_def updateProgress_progress)

lemma bytesKept_traversal:
  "bytesKept s (snd (scanDirectoryParallel w c d node depth s))"
  by (rule traversal_state_rel(1) [of bytesKept, OF bytesKept_refl bytesKept_trans])
     (simp_all add: bytesKept_updateProgress, simp_all add: bytesKept_def)

lemma bytesKept_finishScan: "bytesKept s (finishScan w c tree s)"
  by (auto simp: bytesKept_def finishScan_def trySend_def)

lemma bytesKept_Scan:
  assumes "Scan w c s = (res, s')"
  shows "bytesKept s s'"
  using assms
proof (cases rule: Scan_cases)
  case (traversed ap info s1 tree s2)
  have 1: "bytesKept s s1" using traversed(3) by (auto simp: bytesKept_def)
  have 2: "bytesKept s1 s2"
    using traversed(4) bytesKept_traversal [of s1 w c "rootDir w" _ 0]
    by (auto simp: bytesKept_refl split: if_splits dest: arg_cong [where f = snd])
  have 3: "bytesKept s2 s'" using traversed(6) by (simp add: bytesKept_finishScan)
  show ?thesis by (rule bytesKept_trans [OF bytesKept_trans [OF 1 2] 3])
qed (simp_all add: bytesKept_refl)


text \<open>
  C9. A scanner made by \<^verbatim>\<open>NewScanner\<close>, with any setting of its two options, has
  \<^verbatim>\<open>BytesScanned\<close> 0 and has sent nothing; and a \<^verbatim>\<open>Scan\<close> that starts with
  \<^verbatim>\<open>BytesScanned\<close> 0 in the progress and in every snapshot sent so far ends with
  \<^verbatim>\<open>BytesScanned\<close> 0 in the progress, in what \<^verbatim>\<open>GetProgress\<close> returns and in every
  snapshot sent, those of the scan included. No operation changes the counter.
\<close>

theorem C9_BytesScanned_stays_zero:
  "BytesScanned (progress (SetOneFilesystem oneFS (SetSkipNetwork skip NewScanner))) = 0
   \<and> sent (SetOneFilesystem oneFS (SetSkipNetwork skip NewScanner)) = []
   \<and> (BytesScanned (progress s) = 0 \<and> (\<forall>q \<in> set (sent s). BytesScanned q = 0)
        \<and> Scan w progressChan s = (res, s')
      \<longrightarrow> BytesScanned (progress s') = 0 \<and> BytesScanned (GetProgress s') = 0
          \<and> (\<forall>q \<in> set (sent s'). BytesScanned q = 0))"
proof -
  have "BytesScanned (progress s') = 0 \<and> BytesScanned (GetProgress s') = 0
          \<and> (\<forall>q \<in> set (sent s'). BytesScanned q = 0)"
    if "BytesScanned (progress s) = 0" "\<forall>q \<in> set (sent s). BytesScanned q = 0"
      "Scan w progressChan s = (res, s')"
    using bytesKept_Scan [OF that(3)] that(1,2)
    by (auto simp: bytesKept_def GetProgress_def)
  then show ?thesis
    by (simp add: NewScanner_def SetOneFilesystem_def SetSkipNetwork_def)
qed

text \<open>
  A scan of \<^verbatim>\<open>/root/{a.txt, sub/{b.txt}}\<close> with a fresh scanner: two snapshots are
  sent, and both of them and the final progress have \<^verbatim>\<open>BytesScanned\<close> 0.
\<close>

theorem C9_BytesScanned_stays_zero_witness:
  "BytesScanned (progress NewScanner) = 0
   \<and> sent NewScanner = []
   \<and> length (sent (snd (Scan (exWorld (exDir ''root'' 1 2
          [exFile ''a.txt'' 10 3, exDir ''sub'' 1 4 [exFile ''b.txt'' 20 5]]) None)
          True NewScanner))) = 2
   \<and> BytesScanned (progress (snd (Scan (exWorld (exDir ''root'' 1 2
          [exFile ''a.txt'' 10 3, exDir ''sub'' 1 4 [exFile ''b.txt'' 20 5]]) None)
          True NewScanner))) = 0
   \<and> map BytesScanned (sent (snd (Scan (exWorld (exDir ''root'' 1 2
          [exFile ''a.txt'' 10 3, exDir ''sub'' 1 4 [exFile ''b.txt'' 20 5]]) None)
          True NewScanner))) = [0, 0]"
  using C9_BytesScanned_stays_zero [of True True NewScanner
      "exWorld (exDir ''root'' 1 2
          [exFile ''a.txt'' 10 3, exDir ''sub'' 1 4 [exFile ''b.txt'' 20 5]]) None"
      True
      "fst (Scan (exWorld (exDir ''root'' 1 2
          [exFile ''a.txt'' 10 3, exDir ''sub'' 1 4 [exFile ''b.txt'' 20 5]]) None)
          True NewScanner)"
      "snd (Scan (exWorld (exDir ''root'' 1 2
          [exFile ''a.txt'' 10 3, exDir ''sub'' 1 4 [exFile ''b.txt'' 20 5]]) None)
          True NewScanner)"]
  by (simp add: ex_defs model_defs)

section \<open>The entry counter\<close>

lemma countDescendants_NewFileNode [simp]: "countDescendants (NewFileNode p sz d mt) = 0"
  by (simp add: NewFileNode_def Let_def)

lemma countDescendants_AddChild [simp]:
  "countDescendants (AddChild n ch) = countDescendants n + 1 + countDescendants ch"
  by (cases n) simp

lemma counted_refl: "counted (n, s) (n, s)"
  by (simp add: counted_def)

lemma counted_trans: "counted a b \<Longrightarrow> counted b c \<Longrightarrow> counted a c"
  unfolding counted_def
  by (elim exE conjE, rule_tac x = "k + ka" in exI) (simp add: add.assoc)

lemma counted_poll: "counted (n, s) (n, snd (poll w s))"
  by (simp add: counted_def entriesAccounted_def)

lemma counted_readError: "counted (n, s) (n, recordError (CannotReadDirectory p e) s)"
  by (simp add: counted_def entriesAccounted_def isCannotStat_def)

lemma counted_Continue:
  assumes "processEntry w c p e s = (Continue, s2)"
  shows "counted (n, s) (n, s2)"
  using assms
proof (cases rule: processEntry_cases)
  case placeholder
  then show ?thesis by (simp add: counted_def entriesAccounted_def)
next
  case (volume reason)
  then show ?thesis
    by (auto simp: counted_def entriesAccounted_def intro!: exI [of _ 1])
next
  case (statFailed err)
  then show ?thesis
    by (auto simp: counted_def entriesAccounted_def isCannotStat_def intro!: exI [of _ 1])
next
  case (seen info dev ino)
  then show ?thesis
    by (auto simp: counted_def entriesAccounted_def intro!: exI [of _ 1])
next
  case (boundary info s1 reason)
  then show ?thesis
    by (auto simp: counted_def entriesAccounted_def intro!: exI [of _ 1])
next
  case (attach info)
  then show ?thesis by simp
qed

lemma counted_Attach:
  assumes "processEntry w c p e s = (Attach ch, s2)" and "counted (ch, s2) (ch', s3)"
  shows "counted (n, s) (AddChild n ch', s3)"
  using assms(1)
proof (cases rule: processEntry_cases)
  case (attach info)
  from assms(2) obtain k where
    k: "entriesAccounted ch' s3 = entriesAccounted ch s2 + k"
       "FilesScanned (progress s3) = FilesScanned (progress s2) + of_nat k"
    by (auto simp: counted_def)
  have a: "entriesAccounted ch s2 = entriesAccounted n s - countDescendants n"
     "FilesScanned (progress s2) = FilesScanned (progress s) + 1"
    using attach by (auto simp: entriesAccounted_def)
  have "entriesAccounted (AddChild n ch') s3 = entriesAccounted n s + (1 + k)"
    using k(1) a(1) by (simp add: entriesAccounted_def)
  moreover have "FilesScanned (progress s3) = FilesScanned (progress s) + of_nat (1 + k)"
    using k(2) a(2) by simp
  ultimately show ?thesis unfolding counted_def fst_conv snd_conv by blast
qed simp_all

lemma counted_traversal:
  "counted (node, s) (scanDirectoryParallel w c d node depth s)"
  "counted (node, s) (parallelLoop w c ents node depth s)"
  "counted (node, s) (scanDirectorySequential w c d node s)"
  "counted (node, s) (sequentialLoop w c ents node s)"
  by (rule parallel_inv sequential_inv, rule counted_refl, erule (1) counted_trans,
      rule counted_poll, rule counted_readError, erule counted_Continue,
      erule (1) counted_Attach)+

lemma processEntry_counts:
  assumes "processEntry w c p e s = (r, s1)"
  shows "isICloudPlaceholder (entName e) \<Longrightarrow>
           r = Continue \<and> FilesScanned (progress s1) = FilesScanned (progress s)
           \<and> ICloudFilesSkipped (progress s1) = ICloudFilesSkipped (progress s) + 1"
    and "\<not> isICloudPlaceholder (entName e) \<Longrightarrow>
           FilesScanned (progress s1) = FilesScanned (progress s) + 1
           \<and> ICloudFilesSkipped (progress s1) = ICloudFilesSkipped (progress s)"
  using assms by (cases rule: processEntry_cases; auto)+

lemma Scan_counts:
  assumes "Scan w c s = ((Some tree, err), s')"
  shows "\<exists>k. entriesAccounted tree s' =
               length (skippedVolumes s) + length (filter isCannotStat (Errors (progress s))) + k
             \<and> FilesScanned (progress s') = FilesScanned (progress s) + of_nat k"
  using assms
proof (cases rule: Scan_cases)
  case (traversed ap info s1 tree' s2)
  let ?n = "NewFileNode ap (fiSize info) (fiIsDir info) (fiModTime info)"
  have t: "tree' = tree" using traversed(5) by simp
  have "counted (?n, s1) (tree, s2)"
    using traversed(4) counted_traversal(1) [of ?n s1 w c "rootDir w" 0] counted_refl [of ?n s1]
    by (simp add: t split: if_splits)
  then obtain k where
    k: "entriesAccounted tree s2 = entriesAccounted ?n s1 + k"
       "FilesScanned (progress s2) = FilesScanned (progress s1) + of_nat k"
    by (auto simp: counted_def)
  have 1: "entriesAccounted ?n s1 =
         length (skippedVolumes s) + length (filter isCannotStat (Errors (progress s)))"
       "FilesScanned (progress s1) = FilesScanned (progress s)"
    using traversed(3) by (auto simp: entriesAccounted_def)
  have 2: "entriesAccounted tree s' = entriesAccounted tree s2"
       "FilesScanned (progress s') = FilesScanned (progress s2)"
    using traversed(6) by (simp_all add: entriesAccounted_def)
  show ?thesis using k 1 2 by auto
qed simp_all


text \<open>
  C10. A pass through the loop body on an entry that is not an iCloud placeholder adds
  exactly 1 to \<^verbatim>\<open>FilesScanned\<close> and leaves \<^verbatim>\<open>ICloudFilesSkipped\<close> alone, whatever
  becomes of the entry (skipped as a network or cloud volume, as an alias, at the
  file system boundary, failing \<^verbatim>\<open>Info()\<close>, or attached as a file or directory); a
  placeholder adds 1 to \<^verbatim>\<open>ICloudFilesSkipped\<close> only. Nothing else changes
  \<^verbatim>\<open>FilesScanned\<close>: over a whole \<^verbatim>\<open>Scan\<close> it grows (as an \<^verbatim>\<open>int64\<close>) by the number
  \<open>k\<close> of nodes attached below the root, skip records and recorded \<^verbatim>\<open>Info()\<close>
  failures that the scan added. So it counts visited entries, not file nodes.
\<close>

theorem C10_FilesScanned_counts_entries:
  "(processEntry w progressChan dirPath e s0 = (r, s1) \<longrightarrow>
      (isICloudPlaceholder (entName e) \<longrightarrow>
         r = Continue \<and> FilesScanned (progress s1) = FilesScanned (progress s0)
         \<and> ICloudFilesSkipped (progress s1) = ICloudFilesSkipped (progress s0) + 1)
      \<and> (\<not> isICloudPlaceholder (entName e) \<longrightarrow>
         FilesScanned (progress s1) = FilesScanned (progress s0) + 1
         \<and> ICloudFilesSkipped (progress s1) = ICloudFilesSkipped (progress s0)))
   \<and> (Scan w progressChan s = ((Some tree, err), s') \<longrightarrow>
      (\<exists>k. countDescendants tree + length (skippedVolumes s')
             + length (filter isCannotStat (Errors (progress s')))
           = length (skippedVolumes s) + length (filter isCannotStat (Errors (progress s))) + k
         \<and> FilesScanned (progress s') = FilesScanned (progress s) + of_nat k))"
  using processEntry_counts [of w progressChan dirPath e s0 r s1]
    Scan_counts [of w progressChan s tree err s']
  unfolding entriesAccounted_def by blast

text \<open>
  A scan of \<^verbatim>\<open>/root\<close> with a placeholder, a file, a directory on another device and a
  directory with one file: four entries are counted (the placeholder is not), three
  nodes are attached and one skip is recorded.
\<close>

theorem C10_FilesScanned_counts_entries_witness:
  "processEntry (exWorld (exDir ''root'' 1 2 []) None) True ''/root''
       (exFile ''.x.icloud'' 10 3) NewScanner
     = (Continue, NewScanner\<lparr>progress := (progress NewScanner)\<lparr>ICloudFilesSkipped := 1\<rparr>\<rparr>)
   \<and> isICloudPlaceholder (entName (exFile ''.x.icloud'' 10 3))
   \<and> FilesScanned (progress (snd (processEntry (exWorld (exDir ''root'' 1 2 []) None) True
         ''/root'' (exDir ''mnt'' 2 9 []) NewScanner))) = 1
   \<and> \<not> isICloudPlaceholder (entName (exDir ''mnt'' 2 9 []))
   \<and> fst (fst (Scan (exWorld (exDir ''root'' 1 2
          [exFile ''.x.icloud'' 10 3, exFile ''a.txt'' 10 4, exDir ''mnt'' 2 9 [],
           exDir ''sub'' 1 5 [exFile ''b.txt'' 20 6]]) None) True NewScanner))
      = Some (FileNode ''/root'' ''root'' 64 True 0
          [FileNode ''/root/a.txt'' ''a.txt'' 10 False 0 [] ''.txt'' False,
           FileNode ''/root/sub'' ''sub'' 64 True 0
             [FileNode ''/root/sub/b.txt'' ''b.txt'' 20 False 0 [] ''.txt'' False]
             ''directory'' False]
          ''directory'' False)
   \<and> FilesScanned (progress (snd (Scan (exWorld (exDir ''root'' 1 2
          [exFile ''.x.icloud'' 10 3, exFile ''a.txt'' 10 4, exDir ''mnt'' 2 9 [],
           exDir ''sub'' 1 5 [exFile ''b.txt'' 20 6]]) None) True NewScanner))) = 4
   \<and> skippedVolumes (snd (Scan (exWorld (exDir ''root'' 1 2
          [exFile ''.x.icloud'' 10 3, exFile ''a.txt'' 10 4, exDir ''mnt'' 2 9 [],
           exDir ''sub'' 1 5 [exFile ''b.txt'' 20 6]]) None) True NewScanner))
      = [''/root/mnt (different filesystem (device 2))'']"
  using C10_FilesScanned_counts_entries [of "exWorld (exDir ''root'' 1 2 []) None" True
      "''/root''" "exFile ''.x.icloud'' 10 3" NewScanner Continue
      "NewScanner\<lparr>progress := (progress NewScanner)\<lparr>ICloudFilesSkipped := 1\<rparr>\<rparr>"]
    C10_FilesScanned_counts_entries [of "exWorld (exDir ''root'' 1 2 []) None" True
      "''/root''" "exDir ''mnt'' 2 9 []" NewScanner
      "fst (processEntry (exWorld (exDir ''root'' 1 2 []) None) True
         ''/root'' (exDir ''mnt'' 2 9 []) NewScanner)"
      "snd (processEntry (exWorld (exDir ''root'' 1 2 []) None) True
         ''/root'' (exDir ''mnt'' 2 9 []) NewScanner)"]
  by (simp add: ex_defs model_defs)

end
